theory Spec2Isabelle
  imports Main "HOL-Library.Char_ord" "HOL-Library.List_Lexorder"
    "HOL-Library.Product_Lexorder" "HOL-Library.Multiset"
begin

section \<open>Python values, errors and their comparison\<close>

text \<open>
  The module \<^verbatim>\<open>dspy/clients/anyscale.py\<close> handles YAML documents and keyword arguments.
  Their values are modelled by \<open>pyval\<close>: \<^verbatim>\<open>None\<close>, booleans, unbounded integers, strings,
  lists, tuples, sets (a list in iteration order) and dictionaries (an association list in
  insertion order). Floating point numbers are left out. Exceptions are values of
  \<open>pyerr\<close>; a computation that may raise returns \<open>pyerr + 'a\<close>.
\<close>

datatype pyerr = TypeError | KeyError | AssertionError | RuntimeError | NotImplementedError
  | AttributeError | IndexError | ValueError | ExternalError string

datatype pyval = PNone | PBool bool | PInt int | PStr string
  | PList "pyval list" | PTuple "pyval list" | PSet "pyval list"
  | PDict "(pyval \<times> pyval) list"

type_synonym dict = "(pyval \<times> pyval) list"

definition bind_err :: "pyerr + 'a \<Rightarrow> ('a \<Rightarrow> pyerr + 'b) \<Rightarrow> pyerr + 'b" where
  "bind_err m f = (case m of Inl e \<Rightarrow> Inl e | Inr x \<Rightarrow> f x)"

lemma bind_err_cong [fundef_cong]:
  "m = m' \<Longrightarrow> (\<And>x. m' = Inr x \<Longrightarrow> f x = g x) \<Longrightarrow> bind_err m f = bind_err m' g"
  by (cases m') (simp_all add: bind_err_def)

lemma bind_err_simps [simp]:
  "bind_err (Inl e) f = Inl e" "bind_err (Inr x) f = f x"
  by (simp_all add: bind_err_def)

lemma bind_err_Inr_iff: "bind_err m f = Inr y \<longleftrightarrow> (\<exists>x. m = Inr x \<and> f x = Inr y)"
  by (cases m) simp_all

lemma list_all2_fcong [fundef_cong]:
  "xs = xs' \<Longrightarrow> ys = ys' \<Longrightarrow> (\<And>x y. x \<in> set xs' \<Longrightarrow> y \<in> set ys' \<Longrightarrow> f x y = g x y)
    \<Longrightarrow> list_all2 f xs ys = list_all2 g xs' ys'"
  by (metis list.rel_cong)

text \<open>
  Python's \<^verbatim>\<open>==\<close>: \<^verbatim>\<open>True == 1\<close>, sequences compare element by element, sets and
  dictionaries regardless of order, values of different kinds are unequal.
\<close>

fun py_eq :: "pyval \<Rightarrow> pyval \<Rightarrow> bool" where
  "py_eq PNone PNone = True"
| "py_eq (PBool a) (PBool b) = (a = b)"
| "py_eq (PBool a) (PInt j) = ((if a then 1 else 0) = j)"
| "py_eq (PInt i) (PBool b) = (i = (if b then 1 else 0))"
| "py_eq (PInt i) (PInt j) = (i = j)"
| "py_eq (PStr s) (PStr t) = (s = t)"
| "py_eq (PList xs) (PList ys) = list_all2 py_eq xs ys"
| "py_eq (PTuple xs) (PTuple ys) = list_all2 py_eq xs ys"
| "py_eq (PSet xs) (PSet ys) =
     (length xs = length ys \<and> list_all (\<lambda>x. list_ex (\<lambda>y. py_eq x y) ys) xs)"
| "py_eq (PDict a) (PDict b) =
     (length a = length b \<and>
      list_all (\<lambda>(k, v). list_ex (\<lambda>(k', v'). py_eq k k' \<and> py_eq v v') b) a)"
| "py_eq _ _ = False"

text \<open>
  Python's \<^verbatim>\<open><\<close>: numbers by value, strings and sequences lexicographically (the first
  position where the elements are not \<^verbatim>\<open>==\<close> decides), sets by proper inclusion; every other
  pair, \<^verbatim>\<open>None < None\<close> and two dictionaries included, raises \<^verbatim>\<open>TypeError\<close>.
\<close>

fun py_lt :: "pyval \<Rightarrow> pyval \<Rightarrow> pyerr + bool"
  and py_lt_seq :: "pyval list \<Rightarrow> pyval list \<Rightarrow> pyerr + bool" where
  "py_lt (PBool a) (PBool b) = Inr ((if a then (1::int) else 0) < (if b then 1 else 0))"
| "py_lt (PBool a) (PInt j) = Inr ((if a then 1 else 0) < j)"
| "py_lt (PInt i) (PBool b) = Inr (i < (if b then 1 else 0))"
| "py_lt (PInt i) (PInt j) = Inr (i < j)"
| "py_lt (PStr s) (PStr t) = Inr (s < t)"
| "py_lt (PList xs) (PList ys) = py_lt_seq xs ys"
| "py_lt (PTuple xs) (PTuple ys) = py_lt_seq xs ys"
| "py_lt (PSet xs) (PSet ys) =
     Inr (length xs < length ys \<and> list_all (\<lambda>x. list_ex (\<lambda>y. py_eq x y) ys) xs)"
| "py_lt _ _ = Inl TypeError"
| "py_lt_seq [] [] = Inr False"
| "py_lt_seq [] (y # ys) = Inr True"
| "py_lt_seq (x # xs) [] = Inr False"
| "py_lt_seq (x # xs) (y # ys) = (if py_eq x y then py_lt_seq xs ys else py_lt x y)"

text \<open>
  The builtin \<^verbatim>\<open>sorted\<close>: a stable sort that only ever asks \<^verbatim>\<open><\<close> and raises as soon as
  a comparison does. It is modelled as a stable insertion sort.
\<close>

fun py_insort :: "pyval \<Rightarrow> pyval list \<Rightarrow> pyerr + pyval list" where
  "py_insort x [] = Inr [x]"
| "py_insort x (y # ys) =
     bind_err (py_lt y x) (\<lambda>lt.
       if lt then bind_err (py_insort x ys) (\<lambda>r. Inr (y # r)) else Inr (x # y # ys))"

fun py_sorted :: "pyval list \<Rightarrow> pyerr + pyval list" where
  "py_sorted [] = Inr []"
| "py_sorted (x # xs) = bind_err (py_sorted xs) (\<lambda>r. py_insort x r)"

fun map_err :: "('a \<Rightarrow> pyerr + 'b) \<Rightarrow> 'a list \<Rightarrow> pyerr + 'b list" where
  "map_err f [] = Inr []"
| "map_err f (x # xs) = bind_err (f x) (\<lambda>y. bind_err (map_err f xs) (\<lambda>ys. Inr (y # ys)))"

lemma map_err_cong [fundef_cong]:
  "xs = ys \<Longrightarrow> (\<And>x. x \<in> set ys \<Longrightarrow> f x = g x) \<Longrightarrow> map_err f xs = map_err g ys"
  by (induction ys arbitrary: xs) simp_all

lemma mset_py_insort: "py_insort x ys = Inr r \<Longrightarrow> mset r = add_mset x (mset ys)"
proof (induction ys arbitrary: r)
  case Nil
  then show ?case by auto
next
  case (Cons y ys)
  then show ?case
    by (auto simp: bind_err_Inr_iff split: if_splits)
qed

lemma mset_py_sorted: "py_sorted xs = Inr r \<Longrightarrow> mset r = mset xs"
proof (induction xs arbitrary: r)
  case Nil
  then show ?case by simp
next
  case (Cons x xs)
  then show ?case
    by (auto simp: bind_err_Inr_iff dest: mset_py_insort)
qed

lemma set_py_sorted: "py_sorted xs = Inr r \<Longrightarrow> set r = set xs"
  by (metis mset_py_sorted set_mset_mset)

lemma size_pyval_list_mem: "x \<in> set xs \<Longrightarrow> size x < Suc (size_list size xs)"
  by (induction xs) auto

lemma size_pyval_dict_mem:
  "(k, v) \<in> set kvs \<Longrightarrow> size v < Suc (size_list (size_prod size size) kvs)"
  by (induction kvs) auto

section \<open>The naming step of \<^verbatim>\<open>generate_config_files\<close>\<close>

text \<open>
  \<^verbatim>\<open>freeze\<close> (lines 269-276): a dictionary becomes the sorted tuple of its
  \<^verbatim>\<open>(key, freeze(value))\<close> pairs; a list or a set is sorted first and its elements are
  frozen afterwards; anything else is returned as it is.
\<close>

function freeze :: "pyval \<Rightarrow> pyerr + pyval" where
  "freeze (PDict d) =
     bind_err (map_err (\<lambda>(key, val). bind_err (freeze val) (\<lambda>fv. Inr (PTuple [key, fv]))) d)
       (\<lambda>items. bind_err (py_sorted items) (\<lambda>s. Inr (PTuple s)))"
| "freeze (PList d) =
     bind_err (py_sorted d) (\<lambda>s. bind_err (map_err freeze s) (\<lambda>fs. Inr (PTuple fs)))"
| "freeze (PSet d) =
     bind_err (py_sorted d) (\<lambda>s. bind_err (map_err freeze s) (\<lambda>fs. Inr (PTuple fs)))"
| "freeze PNone = Inr PNone"
| "freeze (PBool b) = Inr (PBool b)"
| "freeze (PInt i) = Inr (PInt i)"
| "freeze (PStr s) = Inr (PStr s)"
| "freeze (PTuple t) = Inr (PTuple t)"
  by pat_completeness auto
termination
proof (relation "measure size")
  show "wf (measure size)" by simp
next
  fix d :: "(pyval \<times> pyval) list" and x :: "pyval \<times> pyval" and xa y
  assume "x \<in> set d" "(xa, y) = x"
  then show "(y, PDict d) \<in> measure size"
    using size_pyval_dict_mem [of xa y d] by simp
next
  fix d x xa
  assume "py_sorted d = Inr x" "xa \<in> set x"
  then show "(xa, PList d) \<in> measure size"
    using size_pyval_list_mem [of xa d] set_py_sorted [of d x] by simp
next
  fix d x xa
  assume "py_sorted d = Inr x" "xa \<in> set x"
  then show "(xa, PSet d) \<in> measure size"
    using size_pyval_list_mem [of xa d] set_py_sorted [of d x] by simp
qed

text \<open>
  The builtin \<^verbatim>\<open>hash\<close> raises \<^verbatim>\<open>TypeError\<close> on a list, a set or a dictionary, also inside
  a tuple. On hashable values it is the parameter \<open>h\<close>.
\<close>

fun hashable :: "pyval \<Rightarrow> bool" where
  "hashable (PList xs) = False"
| "hashable (PSet xs) = False"
| "hashable (PDict d) = False"
| "hashable (PTuple xs) = list_all hashable xs"
| "hashable v = True"

definition py_hash :: "(pyval \<Rightarrow> int) \<Rightarrow> pyval \<Rightarrow> pyerr + int" where
  "py_hash h v = (if hashable v then Inr (h v) else Inl TypeError)"

definition hash_dict :: "(pyval \<Rightarrow> int) \<Rightarrow> pyval \<Rightarrow> pyerr + int" where
  "hash_dict h d = bind_err (freeze d) (py_hash h)"

text \<open>Decimal digits of a natural number and Python's \<^verbatim>\<open>str\<close> of an integer.\<close>

fun str_nat :: "nat \<Rightarrow> string" where
  "str_nat n =
     (if n < 10 then [''0123456789'' ! n]
      else str_nat (n div 10) @ [''0123456789'' ! (n mod 10)])"

definition py_str_int :: "int \<Rightarrow> string" where
  "py_str_int i = (if i < 0 then CHR ''-'' # str_nat (nat (- i)) else str_nat (nat i))"

text \<open>Lines 280-283: the hash of the frozen mapping, negated when negative, in the name.\<close>

definition config_filename :: "(pyval \<Rightarrow> int) \<Rightarrow> pyval \<Rightarrow> pyerr + string" where
  "config_filename h model_config_data =
     bind_err (hash_dict h model_config_data) (\<lambda>dict_sorted_hash.
       Inr (''model_config_dspy_''
            @ py_str_int (if dict_sorted_hash < 0 then - dict_sorted_hash else dict_sorted_hash)
            @ ''.yaml''))"

section \<open>Strings, paths, dictionaries\<close>

definition py_lower :: "string \<Rightarrow> string" where
  "py_lower s =
     map (\<lambda>c. if CHR ''A'' \<le> c \<and> c \<le> CHR ''Z'' then char_of (of_char c + (32::nat)) else c) s"

text \<open>\<^verbatim>\<open>needle in haystack\<close> on strings.\<close>

fun py_contains :: "string \<Rightarrow> string \<Rightarrow> bool" where
  "py_contains needle [] = (needle = [])"
| "py_contains needle (c # hay) =
     (take (length needle) (c # hay) = needle \<or> py_contains needle hay)"

text \<open>\<^verbatim>\<open>s.split(sep)\<close> for a one-character separator; the result is never empty.\<close>

fun py_split :: "char \<Rightarrow> string \<Rightarrow> string list" where
  "py_split sep [] = [[]]"
| "py_split sep (c # cs) =
     (if c = sep then [] # py_split sep cs
      else (case py_split sep cs of [] \<Rightarrow> [[c]] | w # ws \<Rightarrow> (c # w) # ws))"

text \<open>\<^verbatim>\<open>os.path.join(a, b)\<close> of \<^verbatim>\<open>posixpath\<close>.\<close>

definition path_join :: "string \<Rightarrow> string \<Rightarrow> string" where
  "path_join a b =
     (if take 1 b = ''/'' then b
      else if a = [] \<or> drop (length a - 1) a = ''/'' then a @ b
      else a @ ''/'' @ b)"

fun py_truthy :: "pyval \<Rightarrow> bool" where
  "py_truthy PNone = False"
| "py_truthy (PBool b) = b"
| "py_truthy (PInt i) = (i \<noteq> 0)"
| "py_truthy (PStr s) = (s \<noteq> [])"
| "py_truthy (PList xs) = (xs \<noteq> [])"
| "py_truthy (PTuple xs) = (xs \<noteq> [])"
| "py_truthy (PSet xs) = (xs \<noteq> [])"
| "py_truthy (PDict d) = (d \<noteq> [])"

text \<open>
  A dictionary finds a key by \<^verbatim>\<open>==\<close>. Assigning to a key that is present replaces its
  value in place and keeps the key object; a new key goes to the end.
\<close>

fun dict_get :: "dict \<Rightarrow> pyval \<Rightarrow> pyval option" where
  "dict_get [] k = None"
| "dict_get ((k', v') # d) k = (if py_eq k' k then Some v' else dict_get d k)"

fun dict_set :: "dict \<Rightarrow> pyval \<Rightarrow> pyval \<Rightarrow> dict" where
  "dict_set [] k v = [(k, v)]"
| "dict_set ((k', v') # d) k v =
     (if py_eq k' k then (k', v) # d else (k', v') # dict_set d k v)"

definition dict_update :: "dict \<Rightarrow> dict \<Rightarrow> dict" where
  "dict_update d other = fold (\<lambda>(k, v) acc. dict_set acc k v) other d"

text \<open>
  \<^verbatim>\<open>target.update(arg)\<close>: a target that is not a dictionary has no such method. The
  arguments the module passes are mappings by their names and defaults
  (\<^verbatim>\<open>hyperparameters\<close>, \<^verbatim>\<open>compute_config\<close>); an argument that is not one is rejected here.
\<close>

fun py_dict_update :: "pyval \<Rightarrow> pyval \<Rightarrow> pyerr + dict" where
  "py_dict_update (PDict d) (PDict other) = Inr (dict_update d other)"
| "py_dict_update (PDict d) _ = Inl TypeError"
| "py_dict_update _ _ = Inl AttributeError"

text \<open>Keyword arguments: a dictionary whose keys are strings.\<close>

type_synonym kwargs = "(string \<times> pyval) list"

definition kw_get :: "kwargs \<Rightarrow> string \<Rightarrow> pyval option" where
  "kw_get kw k = map_of kw k"

definition kw_get_default :: "kwargs \<Rightarrow> string \<Rightarrow> pyval \<Rightarrow> pyval" where
  "kw_get_default kw k dflt = (case map_of kw k of None \<Rightarrow> dflt | Some v \<Rightarrow> v)"

fun kw_set :: "kwargs \<Rightarrow> string \<Rightarrow> pyval \<Rightarrow> kwargs" where
  "kw_set [] k v = [(k, v)]"
| "kw_set ((k', v') # kw) k v = (if k' = k then (k', v) # kw else (k', v') # kw_set kw k v)"

definition kw_del :: "kwargs \<Rightarrow> string \<Rightarrow> kwargs" where
  "kw_del kw k = filter (\<lambda>(k', v). k' \<noteq> k) kw"

section \<open>Effects: the log, the external calls, the caller's objects\<close>

text \<open>
  Every call of the logger and every call that leaves the module (the shell, the file
  system, the helpers imported from the other modules of the package, the AnyScale SDK)
  is recorded as an event, in order. A log line that interpolates a value which is not a
  string carries the value (\<open>LogVal\<close>); the line of the \<^verbatim>\<open>except\<close> handler of
  \<^verbatim>\<open>finetune_anyscale\<close> carries the exception (\<open>LogExc\<close>).
\<close>

datatype level = INFO | ERROR

datatype event =
    Log level string
  | LogVal level string pyval
  | LogExc pyerr
  | Validate
  | CheckLengths
  | SaveData string
  | ReadJsonl string
  | OsSystem string
  | YamlLoad string
  | YamlDump string pyval
  | JobSubmit pyval
  | JobWait pyval int
  | ModelGet string
  | CopyLora pyval string
  | UpdateModelConfig string pyval

text \<open>
  The state: the events so far, the store of the keyword dictionaries that callers hold
  by reference (\<open>next_ref\<close> is the first unused address), and the \<^verbatim>\<open>job_id\<close> field of the
  \<^verbatim>\<open>FinetuneJobAnyScale\<close> object.
\<close>

record state =
  trace :: "event list"
  heap :: "nat \<Rightarrow> kwargs"
  next_ref :: nat
  job_id :: "string option"

text \<open>
  The answers of the environment are parameters: environment variables, files, the
  imported helpers \<^verbatim>\<open>openai_data_validation\<close>, \<^verbatim>\<open>check_message_lengths\<close> and
  \<^verbatim>\<open>save_data\<close>, the builtin \<^verbatim>\<open>hash\<close>, and the SDK and storage calls. The SDK is taken
  to be installed.
\<close>

record world =
  w_environ :: "string \<Rightarrow> string option"
  w_read_jsonl :: "string \<Rightarrow> pyerr + pyval list"
  w_yaml_safe_load :: "string \<Rightarrow> pyerr + pyval"
  w_hash :: "pyval \<Rightarrow> int"
  w_openai_data_validation :: "pyval list \<Rightarrow> pyerr + pyval"
  w_check_message_lengths :: "pyval list \<Rightarrow> pyerr + pyval"
  w_save_data :: "pyval list \<Rightarrow> string \<Rightarrow> pyerr + string"
  w_JobConfig :: "dict \<Rightarrow> pyerr + pyval"
  w_job_submit :: "pyval \<Rightarrow> pyerr + string"
  w_job_wait :: "pyval \<Rightarrow> int \<Rightarrow> pyerr + unit"
  w_model_get :: "string \<Rightarrow> pyerr + pyval"
  w_copy_lora_weights :: "pyval \<Rightarrow> pyval \<Rightarrow> string \<Rightarrow> pyerr + (string list \<times> string)"
  w_update_model_config :: "string \<Rightarrow> pyval \<Rightarrow> pyerr + unit"

type_synonym 'a prog = "state \<Rightarrow> (pyerr + 'a) \<times> state"

definition return_st :: "'a \<Rightarrow> 'a prog" where
  "return_st x = (\<lambda>s. (Inr x, s))"

definition raise_st :: "pyerr \<Rightarrow> 'a prog" where
  "raise_st e = (\<lambda>s. (Inl e, s))"

definition bind_st :: "'a prog \<Rightarrow> ('a \<Rightarrow> 'b prog) \<Rightarrow> 'b prog" where
  "bind_st m f = (\<lambda>s. case m s of (Inl e, s') \<Rightarrow> (Inl e, s') | (Inr x, s') \<Rightarrow> f x s')"

definition then_st :: "unit prog \<Rightarrow> 'b prog \<Rightarrow> 'b prog" where
  "then_st m k = bind_st m (\<lambda>_. k)"

definition lift_err :: "pyerr + 'a \<Rightarrow> 'a prog" where
  "lift_err r = (\<lambda>s. (r, s))"

definition emit :: "event \<Rightarrow> unit prog" where
  "emit ev = (\<lambda>s. (Inr (), s\<lparr>trace := trace s @ [ev]\<rparr>))"

text \<open>An external call: its event, then the environment's answer.\<close>

definition call :: "event \<Rightarrow> pyerr + 'a \<Rightarrow> 'a prog" where
  "call ev r = then_st (emit ev) (lift_err r)"

text \<open>\<^verbatim>\<open>try: ... except Exception as e: logger.error(...); raise e\<close>\<close>

definition log_and_reraise :: "'a prog \<Rightarrow> 'a prog" where
  "log_and_reraise m =
     (\<lambda>s. case m s of
        (Inl e, s') \<Rightarrow> (Inl e, s'\<lparr>trace := trace s' @ [LogExc e]\<rparr>)
      | (Inr x, s') \<Rightarrow> (Inr x, s'))"

section \<open>The functions of the module\<close>

text \<open>
  \<^verbatim>\<open>TrainingMethod\<close> is declared in \<^verbatim>\<open>dspy.clients.finetune\<close>; this module names its
  member \<^verbatim>\<open>SFT\<close> only. Any other member stands here as \<open>OtherMethod\<close> with its name.
\<close>

datatype TrainingMethod = SFT | OtherMethod string

definition TRAINING_METHODS_ANYSCALE :: "TrainingMethod list" where
  "TRAINING_METHODS_ANYSCALE = [SFT]"

definition PROVIDER_ANYSCALE :: string where
  "PROVIDER_ANYSCALE = ''anyscale''"

subsection \<open>\<^verbatim>\<open>verify_dataset\<close> (lines 179-189)\<close>

definition verify_dataset :: "world \<Rightarrow> pyval list \<Rightarrow> bool prog" where
  "verify_dataset W dataset =
     bind_st (call Validate (w_openai_data_validation W dataset)) (\<lambda>dataset_validation.
       if py_truthy dataset_validation then
         then_st (emit (LogVal ERROR ''Dataset validation failed: '' dataset_validation))
           (return_st False)
       else
         bind_st (call CheckLengths (w_check_message_lengths W dataset)) (\<lambda>convo_lens.
           return_st True))"

subsection \<open>\<^verbatim>\<open>submit_data\<close> (lines 192-216)\<close>

text \<open>The copy command for one file (lines 207-213), with its log line in the last branch.\<close>

definition copy_command :: "string \<Rightarrow> string \<Rightarrow> unit prog" where
  "copy_command path remote_path =
     (if take 2 remote_path = ''s3'' then
        emit (OsSystem (''aws s3 cp '' @ path @ '' '' @ remote_path))
      else if take 2 remote_path = ''gs'' then
        emit (OsSystem (''gcloud storage cp '' @ path @ '' '' @ remote_path))
      else
        then_st (emit (OsSystem (''cp '' @ path @ '' '' @ remote_path)))
          (emit (Log INFO (''Copied '' @ path @ '' to '' @ remote_path))))"

text \<open>The loop over \<^verbatim>\<open>datasets.items()\<close>; \<open>ids\<close> is \<^verbatim>\<open>fine_tuning_file_ids\<close>.\<close>

fun upload_datasets ::
  "world \<Rightarrow> string \<Rightarrow> (string \<times> string) list \<Rightarrow> (string \<times> string) list
    \<Rightarrow> (string \<times> string) list prog" where
  "upload_datasets W storage [] ids = return_st ids"
| "upload_datasets W storage ((name, path) # datasets) ids =
     bind_st (call (ReadJsonl path) (w_read_jsonl W path)) (\<lambda>items.
     then_st (emit (Log INFO (''Number of items in '' @ name @ '' data: ''
                                @ py_str_int (int (length items)))))
     (let remote_path = path_join storage (last (py_split CHR ''/'' path)) in
      then_st (emit (Log INFO (''Uploading '' @ name @ '' data to S3 at '' @ remote_path)))
      (then_st (copy_command path remote_path)
      (upload_datasets W storage datasets (ids @ [(name, remote_path)])))))"

definition submit_data :: "world \<Rightarrow> string \<Rightarrow> string option \<Rightarrow> (string \<times> string option) prog" where
  "submit_data W train_path eval_path =
     (case w_environ W ''ANYSCALE_ARTIFACT_STORAGE'' of
        None \<Rightarrow> raise_st KeyError
      | Some storage \<Rightarrow>
          bind_st (upload_datasets W storage
                     ((''train'', train_path) #
                      (case eval_path of
                         None \<Rightarrow> []
                       | Some p \<Rightarrow> if p \<noteq> [] then [(''val'', p)] else [])) [])
            (\<lambda>fine_tuning_file_ids.
               case map_of fine_tuning_file_ids ''train'' of
                 None \<Rightarrow> raise_st KeyError
               | Some t \<Rightarrow> return_st (t, map_of fine_tuning_file_ids ''val'')))"

subsection \<open>\<^verbatim>\<open>generate_config_files\<close> (lines 219-309)\<close>

definition get_yaml_config :: "string \<Rightarrow> pyerr + string" where
  "get_yaml_config model_name =
     (if py_contains ''llama'' (py_lower model_name) then
        (if py_contains ''70b'' model_name then Inr ''llama-3-70b.yaml''
         else if py_contains ''13b'' model_name then Inr ''llama-3-70b.yaml''
         else Inr ''llama-3-8b.yaml'')
      else if py_contains ''mistral'' (py_lower model_name) then
        (if py_contains ''mixtral'' (py_lower model_name) then Inr ''mixtral-8x7b.yaml''
         else Inr ''mistral-7b.yaml'')
      else Inl RuntimeError)"

text \<open>Lines 254-264.\<close>

definition custom_modifications :: "pyval \<Rightarrow> string \<Rightarrow> string option \<Rightarrow> kwargs \<Rightarrow> dict" where
  "custom_modifications model train_path eval_path kwargs =
     [(PStr ''model_id'', model),
      (PStr ''train_path'', PStr train_path),
      (PStr ''valid_path'', (case eval_path of None \<Rightarrow> PNone | Some p \<Rightarrow> PStr p)),
      (PStr ''logger'', PDict [(PStr ''provider'', PStr ''wandb'')]),
      (PStr ''num_checkpoints_to_keep'', PInt 10)]
     @ (if py_truthy (kw_get_default kwargs ''output_dir'' PNone)
        then [(PStr ''output_dir'', kw_get_default kwargs ''output_dir'' PNone)] else [])"

text \<open>
  Lines 249-267: the template, then the hyperparameters, then the fixed fields; entries
  whose value is \<^verbatim>\<open>None\<close> are dropped.
\<close>

definition merge_config :: "pyval \<Rightarrow> pyval \<Rightarrow> string \<Rightarrow> string option \<Rightarrow> kwargs \<Rightarrow> pyerr + dict" where
  "merge_config template model train_path eval_path kwargs =
     bind_err (py_dict_update template (kw_get_default kwargs ''hyperparameters'' (PDict [])))
       (\<lambda>d1. Inr (filter (\<lambda>(k, v). v \<noteq> PNone)
                 (dict_update (dict_set d1 (PStr ''model_id'') model)
                    (custom_modifications model train_path eval_path kwargs))))"

text \<open>Lines 289-302.\<close>

definition compute_config_dict :: "world \<Rightarrow> string \<Rightarrow> dict" where
  "compute_config_dict W filename =
     [(PStr ''name'', PStr ''dspy-llmforge-fine-tuning-job''),
      (PStr ''entrypoint'', PStr (''llmforge anyscale finetune '' @ filename)),
      (PStr ''working_dir'', PStr ''.''),
      (PStr ''image_uri'', PStr ''localhost:5555/anyscale/llm-forge:0.5.6''),
      (PStr ''requirements'', PList [PStr ''wandb'']),
      (PStr ''env_vars'', PDict
         [(PStr ''WANDB_API_KEY'',
             PStr (case w_environ W ''WANDB_API_KEY'' of None \<Rightarrow> [] | Some v \<Rightarrow> v)),
          (PStr ''HF_TOKEN'', PStr (case w_environ W ''HF_TOKEN'' of None \<Rightarrow> [] | Some v \<Rightarrow> v)),
          (PStr ''HF_HOME'', PStr (case w_environ W ''HF_HOME'' of None \<Rightarrow> [] | Some v \<Rightarrow> v))])]"

fun is_str :: "pyval \<Rightarrow> bool" where
  "is_str (PStr s) = True"
| "is_str _ = False"

text \<open>Lines 220-247: the template named by the caller, or the default for the model family.\<close>

definition base_model_yaml_path :: "kwargs \<Rightarrow> pyval \<Rightarrow> pyval prog" where
  "base_model_yaml_path kwargs model =
     (if \<not> py_truthy (kw_get_default kwargs ''train_config_yaml'' PNone) then
        bind_st (lift_err (case model of
                             PStr model_name \<Rightarrow> get_yaml_config model_name
                           | _ \<Rightarrow> Inl AttributeError)) (\<lambda>default_model_yaml_path.
          (let p = path_join
                     (path_join []
                        (if py_truthy (kw_get_default kwargs ''use_lora'' (PBool False))
                         then ''configs/training/lora''
                         else ''configs/training/full_param''))
                     default_model_yaml_path
           in then_st (emit (Log INFO (''Using default yaml template for model: '' @ p)))
                (return_st (PStr p))))
      else return_st (kw_get_default kwargs ''train_config_yaml'' PNone))"

text \<open>Line 249: \<^verbatim>\<open>yaml.safe_load(open(path, "r"))\<close>; the path is a string.\<close>

definition load_template :: "world \<Rightarrow> pyval \<Rightarrow> pyval prog" where
  "load_template W path =
     (case path of
        PStr p \<Rightarrow> call (YamlLoad p) (w_yaml_safe_load W p)
      | _ \<Rightarrow> raise_st TypeError)"

text \<open>Lines 303-305: \<^verbatim>\<open>JobConfig(**compute_config_dict)\<close> needs string keys.\<close>

definition make_job_config :: "world \<Rightarrow> kwargs \<Rightarrow> string \<Rightarrow> pyerr + pyval" where
  "make_job_config W kwargs filename =
     bind_err (py_dict_update (PDict (compute_config_dict W filename))
                 (kw_get_default kwargs ''compute_config'' (PDict [])))
       (\<lambda>cc. if list_all (\<lambda>(k, v). is_str k) cc then w_JobConfig W cc else Inl TypeError)"

definition generate_config_files ::
  "world \<Rightarrow> string \<Rightarrow> string option \<Rightarrow> kwargs \<Rightarrow> (pyval \<times> pyval) prog" where
  "generate_config_files W train_path eval_path kwargs =
     bind_st (lift_err (case kw_get kwargs ''model'' of
                          None \<Rightarrow> Inl KeyError
                        | Some PNone \<Rightarrow> Inl AssertionError
                        | Some m \<Rightarrow> Inr m)) (\<lambda>model.
     bind_st (base_model_yaml_path kwargs model) (\<lambda>path.
     bind_st (load_template W path) (\<lambda>template.
     bind_st (lift_err (merge_config template model train_path eval_path kwargs))
       (\<lambda>model_config_data.
     bind_st (lift_err (config_filename (w_hash W) (PDict model_config_data))) (\<lambda>filename.
     then_st (emit (LogVal INFO ''Model config data: '' (PDict model_config_data)))
     (then_st (emit (YamlDump filename (PDict model_config_data)))
     (bind_st (lift_err (make_job_config W kwargs filename)) (\<lambda>compute_config.
     return_st (kw_get_default kwargs ''compute_yaml_path'' (PStr ''job_runner_config.yaml''),
                compute_config)))))))))"

subsection \<open>The SDK calls (lines 158-160 and 312-323)\<close>

definition start_remote_training :: "world \<Rightarrow> pyval \<Rightarrow> string prog" where
  "start_remote_training W compute_config =
     call (JobSubmit compute_config) (w_job_submit W compute_config)"

text \<open>
  The module defines \<^verbatim>\<open>wait_for_training\<close> twice. The first definition (line 158) takes
  the job's id.
\<close>

definition wait_for_training_line158 :: "world \<Rightarrow> pyval \<Rightarrow> unit prog" where
  "wait_for_training_line158 W jid = call (JobWait jid 18000) (w_job_wait W jid 18000)"

text \<open>
  The second definition (line 317) rebinds the name when the module is loaded, so it is
  the one \<^verbatim>\<open>finetune_anyscale\<close> calls. It takes the job object and reads its \<^verbatim>\<open>job_id\<close>
  attribute. Its argument is either a \<^verbatim>\<open>FinetuneJobAnyScale\<close> object, given by the value
  of that attribute, or a plain value, which has no such attribute.
\<close>

datatype pyarg = ArgJob "string option" | ArgVal pyval

definition wait_for_training :: "world \<Rightarrow> pyarg \<Rightarrow> unit prog" where
  "wait_for_training W job =
     then_st (emit (Log INFO ''Waiting for training to complete''))
       (case job of
          ArgJob None \<Rightarrow> call (JobWait PNone 18000) (w_job_wait W PNone 18000)
        | ArgJob (Some jid) \<Rightarrow> call (JobWait (PStr jid) 18000) (w_job_wait W (PStr jid) 18000)
        | ArgVal v \<Rightarrow> raise_st AttributeError)"

definition get_model_info :: "world \<Rightarrow> string \<Rightarrow> pyval prog" where
  "get_model_info W jid = call (ModelGet jid) (w_model_get W jid)"

text \<open>
  \<^verbatim>\<open>copy_lora_weights\<close> and \<^verbatim>\<open>update_model_config\<close> work on the bucket and on the serving
  configuration files; each is one external call here.
\<close>

definition copy_lora_weights :: "world \<Rightarrow> pyval \<Rightarrow> pyval \<Rightarrow> string \<Rightarrow> (string list \<times> string) prog" where
  "copy_lora_weights W storage_uri model_info jid =
     call (CopyLora storage_uri jid) (w_copy_lora_weights W storage_uri model_info jid)"

definition update_model_config :: "world \<Rightarrow> string \<Rightarrow> pyval \<Rightarrow> unit prog" where
  "update_model_config W lora_dynamic_path serve_config_path =
     call (UpdateModelConfig lora_dynamic_path serve_config_path)
       (w_update_model_config W lora_dynamic_path serve_config_path)"

subsection \<open>\<^verbatim>\<open>finetune_anyscale\<close> (lines 84-151)\<close>

text \<open>
  \<^verbatim>\<open>train_kwargs = train_kwargs or {}\<close>: the caller's dictionary when it is given and not
  empty, a new empty one otherwise.
\<close>

definition train_kwargs_or_new :: "nat option \<Rightarrow> nat prog" where
  "train_kwargs_or_new arg =
     (\<lambda>s. case arg of
        Some r \<Rightarrow>
          if heap s r \<noteq> [] then (Inr r, s)
          else (Inr (next_ref s),
                s\<lparr>heap := (heap s)(next_ref s := []), next_ref := Suc (next_ref s)\<rparr>)
      | None \<Rightarrow>
          (Inr (next_ref s),
           s\<lparr>heap := (heap s)(next_ref s := []), next_ref := Suc (next_ref s)\<rparr>))"

definition get_kwargs :: "nat \<Rightarrow> kwargs prog" where
  "get_kwargs r = (\<lambda>s. (Inr (heap s r), s))"

definition put_kwargs :: "nat \<Rightarrow> kwargs \<Rightarrow> unit prog" where
  "put_kwargs r kw = (\<lambda>s. (Inr (), s\<lparr>heap := (heap s)(r := kw)\<rparr>))"

definition set_job_id :: "string \<Rightarrow> unit prog" where
  "set_job_id jid = (\<lambda>s. (Inr (), s\<lparr>job_id := Some jid\<rparr>))"

text \<open>Lines 130-147: what follows the wait.\<close>

definition finetune_after_wait :: "world \<Rightarrow> string \<Rightarrow> pyval \<Rightarrow> string prog" where
  "finetune_after_wait W jid serve_config_path =
     then_st (emit (Log INFO ''[Finetune] Retrieving model information...''))
     (bind_st (get_model_info W jid) (\<lambda>model_info.
     then_st (emit (LogVal INFO ''[Finetune] Model info retrieved: '' model_info))
     (bind_st (lift_err (case model_info of
                           PDict d \<Rightarrow> (case dict_get d (PStr ''storage_uri'') of
                                         None \<Rightarrow> Inl KeyError | Some u \<Rightarrow> Inr u)
                         | _ \<Rightarrow> Inl TypeError)) (\<lambda>storage_uri.
     then_st (emit (LogVal INFO ''[Finetune] Copying LoRA weights from '' storage_uri))
     (bind_st (copy_lora_weights W storage_uri model_info jid)
        (\<lambda>(model_names, lora_dynamic_path).
     then_st (emit (LogVal INFO ''[Finetune] LoRA weights copied. Model names: ''
                      (PList (map PStr model_names))))
     (then_st (emit (Log INFO ''[Finetune] Setting result in future object...''))
     (if model_names = [] then raise_st IndexError
      else
        then_st (emit (Log INFO ''[Finetune] Training process completed successfully.''))
        (then_st (emit (Log INFO
           ''[Finetune] Updating model config with the proper dynamic path''))
        (then_st (update_model_config W lora_dynamic_path serve_config_path)
        (return_st (last model_names))))))))))))"

text \<open>
  Lines 118-128: the configuration, the submission and the wait. A call with
  \<^verbatim>\<open>**train_kwargs\<close> raises \<^verbatim>\<open>TypeError\<close> when the dictionary repeats a keyword that the
  call passes by name.
\<close>

definition finetune_submit_and_wait ::
  "world \<Rightarrow> nat \<Rightarrow> string \<Rightarrow> pyval \<Rightarrow> string prog" where
  "finetune_submit_and_wait W r remote_train_path serve_config_path =
     then_st (emit (Log INFO ''[Finetune] Generating configuration files...''))
     (bind_st (get_kwargs r) (\<lambda>train_kwargs.
     bind_st (if kw_get train_kwargs ''train_path'' \<noteq> None
                 \<or> kw_get train_kwargs ''eval_path'' \<noteq> None
              then raise_st TypeError
              else generate_config_files W remote_train_path None train_kwargs)
       (\<lambda>(_, compute_config).
     then_st (emit (Log INFO ''[Finetune] Starting remote training...''))
     (bind_st (if kw_get train_kwargs ''compute_config'' \<noteq> None then raise_st TypeError
               else start_remote_training W compute_config) (\<lambda>jid.
     then_st (set_job_id jid)
     (then_st (emit (Log INFO (''[Finetune] Remote training started. Job ID: '' @ jid)))
     (then_st (emit (Log INFO ''[Finetune] Waiting for training to complete...''))
     (then_st (wait_for_training W (ArgVal (PStr jid)))
     (then_st (emit (Log INFO ''[Finetune] Training completed.''))
     (finetune_after_wait W jid serve_config_path))))))))))"

text \<open>Lines 104-116: validation, conversion and upload.\<close>

definition finetune_steps ::
  "world \<Rightarrow> pyval list \<Rightarrow> nat \<Rightarrow> pyval \<Rightarrow> string prog" where
  "finetune_steps W train_data r serve_config_path =
     then_st (emit (Log INFO ''[Finetune] Validating the dataset format...''))
     (bind_st (verify_dataset W train_data) (\<lambda>ok.
     if \<not> ok then
       then_st (emit (Log ERROR
         ''[Finetune] Error: Unable to verify that the dataset is in the correct format.''))
         (raise_st RuntimeError)
     else
       then_st (emit (Log INFO ''[Finetune] Converting data to JSONL format...''))
       (bind_st (call (SaveData PROVIDER_ANYSCALE)
                   (w_save_data W train_data PROVIDER_ANYSCALE)) (\<lambda>data_path.
       then_st (emit (Log INFO ''[Finetune] Submitting data to remote storage...''))
       (bind_st (submit_data W data_path None) (\<lambda>(remote_train_path, _).
       then_st (emit (Log INFO (''[Finetune] Data submitted. Remote train path: ''
                                  @ remote_train_path)))
       (finetune_submit_and_wait W r remote_train_path serve_config_path)))))))"

text \<open>
  \<^verbatim>\<open>finetune_anyscale\<close> (lines 84-151). The argument \<open>train_kwargs\<close> is the caller's
  reference to its dictionary, or \<^verbatim>\<open>None\<close>. Line 95 assigns the training method; the
  function has no argument for it.
\<close>

definition finetune_anyscale :: "world \<Rightarrow> string \<Rightarrow> pyval list \<Rightarrow> nat option \<Rightarrow> string prog" where
  "finetune_anyscale W model train_data train_kwargs =
     log_and_reraise
      (bind_st (train_kwargs_or_new train_kwargs) (\<lambda>r.
       bind_st (get_kwargs r) (\<lambda>kw.
       if kw_get kw ''model'' \<noteq> None then raise_st AssertionError
       else
       then_st (put_kwargs r (kw_set kw ''model'' (PStr model)))
       (let train_method = SFT in
       then_st (emit (Log INFO ''[Finetune] Starting training process...''))
       (if train_method \<notin> set TRAINING_METHODS_ANYSCALE then raise_st NotImplementedError
        else
       then_st (emit (Log INFO
         ''[Finetune] Retrieving the `serve_config_path` if provided, otherwise defaulting to `serve_1B.yaml`...''))
       (bind_st (get_kwargs r) (\<lambda>kw1.
       then_st (put_kwargs r (kw_del kw1 ''serve_config_path''))
       (finetune_steps W train_data r
          (kw_get_default kw1 ''serve_config_path'' (PStr ''serve_1B.yaml''))))))))))"

section \<open>A concrete environment\<close>

text \<open>
  An environment and inputs on which the functions can be run: the artifact storage is
  an S3 bucket, every file holds one record, the template sets a logger and a checkpoint
  count of its own, the validator reports a problem for a record whose only message has
  the role \<^verbatim>\<open>wizard\<close>, and the SDK accepts every job.
\<close>

fun example_hash :: "pyval \<Rightarrow> int" where
  "example_hash PNone = 0"
| "example_hash (PBool b) = (if b then 1 else 0)"
| "example_hash (PInt i) = i"
| "example_hash (PStr s) = int (sum_list (map of_char s))"
| "example_hash (PTuple xs) = foldr (\<lambda>x acc. example_hash x - 3 * acc) xs 7"
| "example_hash (PList xs) = 0"
| "example_hash (PSet xs) = 0"
| "example_hash (PDict d) = 0"

definition example_record :: "string \<Rightarrow> pyval" where
  "example_record role =
     PDict [(PStr ''messages'',
             PList [PDict [(PStr ''role'', PStr role), (PStr ''content'', PStr ''hi'')]])]"

definition example_validation :: "pyval list \<Rightarrow> pyerr + pyval" where
  "example_validation dataset =
     Inr (PDict (if example_record ''wizard'' \<in> set dataset
                 then [(PStr ''unrecognized_role'', PInt 1)] else []))"

definition example_lengths :: "int \<Rightarrow> pyval list \<Rightarrow> pyerr + pyval" where
  "example_lengths n dataset = Inr (PList (map (\<lambda>_. PInt n) dataset))"

definition example_template :: pyval where
  "example_template =
     PDict [(PStr ''context_length'', PInt 512),
            (PStr ''logger'', PStr ''none''),
            (PStr ''num_checkpoints_to_keep'', PInt 1)]"

definition example_environ :: "string \<Rightarrow> string option" where
  "example_environ name =
     (if name = ''ANYSCALE_ARTIFACT_STORAGE'' then Some ''s3://bucket/artifacts'' else None)"

definition example_world :: world where
  "example_world =
     \<lparr> w_environ = example_environ,
       w_read_jsonl = (\<lambda>path. Inr [PNone]),
       w_yaml_safe_load = (\<lambda>path. Inr example_template),
       w_hash = example_hash,
       w_openai_data_validation = example_validation,
       w_check_message_lengths = example_lengths 100000,
       w_save_data = (\<lambda>dataset provider. Inr ''/tmp/anyscale/data.jsonl''),
       w_JobConfig = (\<lambda>d. Inr (PDict d)),
       w_job_submit = (\<lambda>config. Inr ''prodjob_1''),
       w_job_wait = (\<lambda>jid timeout_s. Inr ()),
       w_model_get = (\<lambda>jid. Inr (PDict [(PStr ''storage_uri'', PStr ''gs://bucket/run/'')])),
       w_copy_lora_weights = (\<lambda>uri info jid. Inr ([''run:epoch-0''], ''gs://bucket/dspy'')),
       w_update_model_config = (\<lambda>path serve. Inr ()) \<rparr>"

text \<open>
  A caller's state: nothing logged yet, the caller holds three keyword dictionaries
  (an empty one at address 0, one with hyperparameters at address 1, one that already
  names a model at address 2), and the job object has no id.
\<close>

definition example_hyperparameters :: pyval where
  "example_hyperparameters =
     PDict [(PStr ''logger'', PDict [(PStr ''provider'', PStr ''tensorboard'')]),
            (PStr ''num_checkpoints_to_keep'', PInt 3),
            (PStr ''learning_rate'', PInt 1)]"

definition example_heap :: "nat \<Rightarrow> kwargs" where
  "example_heap r =
     (if r = 1 then [(''hyperparameters'', example_hyperparameters),
                     (''serve_config_path'', PStr ''serve_8B.yaml'')]
      else if r = 2 then [(''model'', PStr ''mistral-7b'')]
      else [])"

definition example_state :: state where
  "example_state = \<lparr> trace = [], heap = example_heap, next_ref = 3, job_id = None \<rparr>"

section \<open>Observing a call\<close>

text \<open>
  The events a call added; the assertion of line 93 on the caller's dictionary; the name
  of the function behind an event, and the calls other than the logger's in a trace.
\<close>

definition new_events :: "state \<Rightarrow> state \<Rightarrow> event list" where
  "new_events s s' = drop (length (trace s)) (trace s')"

definition no_model_key :: "nat option \<Rightarrow> state \<Rightarrow> bool" where
  "no_model_key train_kwargs s =
     (case train_kwargs of None \<Rightarrow> True | Some r \<Rightarrow> kw_get (heap s r) ''model'' = None)"

fun call_name :: "event \<Rightarrow> string" where
  "call_name (Log l m) = ''logger''"
| "call_name (LogVal l m v) = ''logger''"
| "call_name (LogExc e) = ''logger''"
| "call_name Validate = ''openai_data_validation''"
| "call_name CheckLengths = ''check_message_lengths''"
| "call_name (SaveData p) = ''save_data''"
| "call_name (ReadJsonl p) = ''read_jsonl''"
| "call_name (OsSystem c) = ''os.system''"
| "call_name (YamlLoad p) = ''yaml.safe_load''"
| "call_name (YamlDump p v) = ''yaml.safe_dump''"
| "call_name (JobSubmit c) = ''anyscale.job.submit''"
| "call_name (JobWait j t) = ''anyscale.job.wait''"
| "call_name (ModelGet j) = ''anyscale.llm.model.get''"
| "call_name (CopyLora u j) = ''copy_lora_weights''"
| "call_name (UpdateModelConfig p c) = ''update_model_config''"

definition external_calls :: "event list \<Rightarrow> string list" where
  "external_calls evs = filter (\<lambda>n. n \<noteq> ''logger'') (map call_name evs)"

fun is_log :: "event \<Rightarrow> bool" where
  "is_log (Log l m) = True"
| "is_log (LogVal l m v) = True"
| "is_log (LogExc e) = True"
| "is_log _ = False"

fun is_job_wait :: "event \<Rightarrow> bool" where
  "is_job_wait (JobWait jid t) = True"
| "is_job_wait _ = False"

text \<open>The events of an upload, of the configuration step and of the submission.\<close>

fun upload_config_or_submit :: "event \<Rightarrow> bool" where
  "upload_config_or_submit (SaveData p) = True"
| "upload_config_or_submit (ReadJsonl p) = True"
| "upload_config_or_submit (OsSystem c) = True"
| "upload_config_or_submit (YamlLoad p) = True"
| "upload_config_or_submit (YamlDump p v) = True"
| "upload_config_or_submit (JobSubmit c) = True"
| "upload_config_or_submit _ = False"

text \<open>
  What claim C6 asks of a configuration written to disk: the logger provider is
  \<^verbatim>\<open>wandb\<close> and ten checkpoints are kept. Events that write no configuration pass.
\<close>

fun has_fixed_fields :: "event \<Rightarrow> bool" where
  "has_fixed_fields (YamlDump filename (PDict data)) =
     (dict_get data (PStr ''logger'') = Some (PDict [(PStr ''provider'', PStr ''wandb'')])
      \<and> dict_get data (PStr ''num_checkpoints_to_keep'') = Some (PInt 10))"
| "has_fixed_fields (YamlDump filename v) = False"
| "has_fixed_fields e = True"

text \<open>
  A program that leaves the store of dictionaries alone and only adds events that
  satisfy \<open>P\<close>; a program that raises from every state.
\<close>

definition adds :: "(event \<Rightarrow> bool) \<Rightarrow> 'a prog \<Rightarrow> bool" where
  "adds P m = (\<forall>s. heap (snd (m s)) = heap s \<and> next_ref (snd (m s)) = next_ref s
                 \<and> (\<exists>evs. trace (snd (m s)) = trace s @ evs \<and> list_all P evs))"

definition fails :: "'a prog \<Rightarrow> bool" where
  "fails m = (\<forall>s. isl (fst (m s)))"

text \<open>A program that only adds events that satisfy \<open>P\<close>, whatever it does to the store.\<close>

definition traces :: "(event \<Rightarrow> bool) \<Rightarrow> 'a prog \<Rightarrow> bool" where
  "traces P m = (\<forall>s. \<exists>evs. trace (snd (m s)) = trace s @ evs \<and> list_all P evs)"

text \<open>A length check that reports a million tokens for every record.\<close>

definition long_lengths :: "pyval list \<Rightarrow> pyerr + pyval" where
  "long_lengths dataset = Inr (PList (map (\<lambda>_. PInt 1000000) dataset))"

text \<open>The keyword arguments of the example call, as \<^verbatim>\<open>generate_config_files\<close> receives them.\<close>

definition example_kwargs :: kwargs where
  "example_kwargs = [(''hyperparameters'', example_hyperparameters),
                     (''model'', PStr ''meta-llama/Llama-3-8b'')]"

section \<open>Configuration values, their canonical form and their order\<close>

subsection \<open>The values of a YAML document\<close>

text \<open>
  A scalar is \<^verbatim>\<open>None\<close>, a boolean, an integer or a string. Two scalars are \<^verbatim>\<open>==\<close> exactly
  when they have the same \<open>skey\<close>: \<^verbatim>\<open>True\<close> and \<^verbatim>\<open>1\<close> are one and the same dictionary key.
\<close>

fun scalar :: "pyval \<Rightarrow> bool" where
  "scalar PNone = True"
| "scalar (PBool b) = True"
| "scalar (PInt i) = True"
| "scalar (PStr s) = True"
| "scalar _ = False"

fun skey :: "pyval \<Rightarrow> nat \<times> int \<times> string" where
  "skey PNone = (0, 0, [])"
| "skey (PBool b) = (1, (if b then 1 else 0), [])"
| "skey (PInt i) = (1, i, [])"
| "skey (PStr s) = (2, 0, s)"
| "skey _ = (3, 0, [])"

text \<open>
  The values that \<^verbatim>\<open>yaml.safe_load\<close> builds: scalars, lists, sets of scalars, and
  mappings with scalar keys. An association list stands for a Python dictionary only
  when its keys are pairwise different, and likewise for a set.
\<close>

fun yaml_value :: "pyval \<Rightarrow> bool" where
  "yaml_value (PList xs) = list_all yaml_value xs"
| "yaml_value (PSet xs) = (list_all scalar xs \<and> distinct (map skey xs))"
| "yaml_value (PDict d) =
     (list_all (\<lambda>(k, v). scalar k \<and> yaml_value v) d \<and> distinct (map (\<lambda>(k, v). skey k) d))"
| "yaml_value (PTuple xs) = False"
| "yaml_value v = True"

text \<open>
  The weaker condition that no dictionary inside a value repeats a key (two keys that
  are \<^verbatim>\<open>==\<close> are one key of a Python dictionary).
\<close>

fun distinct_keys :: "pyval list \<Rightarrow> bool" where
  "distinct_keys [] = True"
| "distinct_keys (k # ks) =
     (list_all (\<lambda>k'. \<not> py_eq k k' \<and> \<not> py_eq k' k) ks \<and> distinct_keys ks)"

fun well_formed :: "pyval \<Rightarrow> bool" where
  "well_formed (PDict d) = (distinct_keys (map fst d) \<and> list_all (\<lambda>(k, v). well_formed v) d)"
| "well_formed (PList xs) = list_all well_formed xs"
| "well_formed (PSet xs) = list_all well_formed xs"
| "well_formed v = True"

subsection \<open>Equality up to the order of dictionary keys\<close>

text \<open>
  Two values are related when they differ at most in the order in which their
  dictionaries, nested ones included, list their keys: two dictionaries of the same
  length in which every entry of the first has an entry of the second with the same
  key and a related value; two lists with related elements at every position;
  otherwise the same value.
\<close>

fun reorder_eq :: "pyval \<Rightarrow> pyval \<Rightarrow> bool" where
  "reorder_eq (PList xs) (PList ys) = list_all2 reorder_eq xs ys"
| "reorder_eq (PDict a) (PDict b) =
     (length a = length b \<and>
      list_all (\<lambda>(k, v). list_ex (\<lambda>(k', v'). k' = k \<and> reorder_eq v v') b) a)"
| "reorder_eq a b = (a = b)"

subsection \<open>The naming step as the specification describes it\<close>

text \<open>
  The specification describes the naming step in these words: canonicalise the mapping
  by recursively sorting dictionary keys and sorting list and set elements, hash the
  canonical form, take the absolute value, and format it into the name
  \<^verbatim>\<open>model_config_dspy_{N}.yaml\<close>. The definitions below follow these words: the entries of
  a dictionary are sorted by their keys alone, with a stable insertion sort that asks
  \<^verbatim>\<open><\<close> of two keys, and the canonical form of a dictionary is the tuple of its sorted
  \<^verbatim>\<open>(key, canonical value)\<close> pairs.
\<close>

fun spec_key_insort :: "pyval \<times> pyval \<Rightarrow> dict \<Rightarrow> pyerr + dict" where
  "spec_key_insort x [] = Inr [x]"
| "spec_key_insort x (y # ys) =
     bind_err (py_lt (fst y) (fst x)) (\<lambda>lt.
       if lt then bind_err (spec_key_insort x ys) (\<lambda>r. Inr (y # r)) else Inr (x # y # ys))"

fun spec_sort_by_key :: "dict \<Rightarrow> pyerr + dict" where
  "spec_sort_by_key [] = Inr []"
| "spec_sort_by_key (x # xs) = bind_err (spec_sort_by_key xs) (\<lambda>r. spec_key_insort x r)"

definition pair_tuple :: "pyval \<times> pyval \<Rightarrow> pyval" where
  "pair_tuple p = PTuple [fst p, snd p]"

function spec_canonical :: "pyval \<Rightarrow> pyerr + pyval" where
  "spec_canonical (PDict d) =
     bind_err (map_err (\<lambda>(key, val). bind_err (spec_canonical val) (\<lambda>c. Inr (key, c))) d)
       (\<lambda>entries. bind_err (spec_sort_by_key entries) (\<lambda>s. Inr (PTuple (map pair_tuple s))))"
| "spec_canonical (PList xs) =
     bind_err (py_sorted xs) (\<lambda>s. bind_err (map_err spec_canonical s) (\<lambda>cs. Inr (PTuple cs)))"
| "spec_canonical (PSet xs) =
     bind_err (py_sorted xs) (\<lambda>s. bind_err (map_err spec_canonical s) (\<lambda>cs. Inr (PTuple cs)))"
| "spec_canonical PNone = Inr PNone"
| "spec_canonical (PBool b) = Inr (PBool b)"
| "spec_canonical (PInt i) = Inr (PInt i)"
| "spec_canonical (PStr s) = Inr (PStr s)"
| "spec_canonical (PTuple t) = Inr (PTuple t)"
  by pat_completeness auto
termination
proof (relation "measure size")
  show "wf (measure size)" by simp
next
  fix d :: "(pyval \<times> pyval) list" and x :: "pyval \<times> pyval" and xa y
  assume "x \<in> set d" "(xa, y) = x"
  then show "(y, PDict d) \<in> measure size"
    using size_pyval_dict_mem [of xa y d] by simp
next
  fix d x xa
  assume "py_sorted d = Inr x" "xa \<in> set x"
  then show "(xa, PList d) \<in> measure size"
    using size_pyval_list_mem [of xa d] set_py_sorted [of d x] by simp
next
  fix d x xa
  assume "py_sorted d = Inr x" "xa \<in> set x"
  then show "(xa, PSet d) \<in> measure size"
    using size_pyval_list_mem [of xa d] set_py_sorted [of d x] by simp
qed

definition spec_config_filename :: "(pyval \<Rightarrow> int) \<Rightarrow> pyval \<Rightarrow> pyerr + string" where
  "spec_config_filename h config =
     bind_err (spec_canonical config) (\<lambda>canonical.
     bind_err (py_hash h canonical) (\<lambda>hash_value.
       Inr (''model_config_dspy_'' @ str_nat (nat \<bar>hash_value\<bar>) @ ''.yaml'')))"

subsection \<open>Lists whose elements can be ordered\<close>



subsection \<open>Example configurations\<close>

text \<open>
  A configuration with a nested dictionary and a list, the same configuration with the
  keys of both dictionaries in another order, and keyword arguments whose
  hyperparameters hold a given list.
\<close>

definition example_config :: pyval where
  "example_config =
     PDict [(PStr ''model_id'', PStr ''meta-llama/Llama-3-8b''),
            (PStr ''lora'', PDict [(PStr ''rank'', PInt 8), (PStr ''alpha'', PInt 16)]),
            (PStr ''layers'', PList [PInt 3, PInt 1, PInt 2])]"

definition example_config_reordered :: pyval where
  "example_config_reordered =
     PDict [(PStr ''layers'', PList [PInt 3, PInt 1, PInt 2]),
            (PStr ''lora'', PDict [(PStr ''alpha'', PInt 16), (PStr ''rank'', PInt 8)]),
            (PStr ''model_id'', PStr ''meta-llama/Llama-3-8b'')]"


subsection \<open>Notions used in the proofs\<close>

text \<open>
  Two values are comparable when \<^verbatim>\<open><\<close> does not raise on them. An item is a pair of a
  scalar key and a frozen value, as \<^verbatim>\<open>freeze\<close> builds it for a dictionary entry; items
  are of the same kind when their keys are all numbers or all strings.
\<close>

definition comparable :: "pyval \<Rightarrow> pyval \<Rightarrow> bool" where
  "comparable a b = (\<not> isl (py_lt a b))"

fun is_item :: "pyval \<Rightarrow> bool" where
  "is_item (PTuple [k, fv]) = scalar k"
| "is_item _ = False"

fun item_key :: "pyval \<Rightarrow> nat \<times> int \<times> string" where
  "item_key (PTuple (k # rest)) = skey k"
| "item_key _ = (3, 0, [])"

definition same_kind :: "pyval list \<Rightarrow> bool" where
  "same_kind xs = (\<exists>c. c \<noteq> 0 \<and> (\<forall>x \<in> set xs. fst (item_key x) = c))"

definition key_frozen :: "pyval \<times> pyval \<Rightarrow> pyval \<times> (pyerr + pyval)" where
  "key_frozen = (\<lambda>(key, val). (key, freeze val))"

definition item_of :: "pyval \<times> (pyerr + pyval) \<Rightarrow> pyerr + pyval" where
  "item_of = (\<lambda>(key, r). bind_err r (\<lambda>fv. Inr (PTuple [key, fv])))"

section \<open>Properties of the orchestration\<close>

lemmas monad_defs = bind_st_def then_st_def return_st_def raise_st_def lift_err_def emit_def
  call_def log_and_reraise_def

lemmas example_defs = example_world_def example_state_def example_heap_def example_environ_def
  example_validation_def example_lengths_def example_template_def example_hyperparameters_def
  example_record_def example_kwargs_def

lemmas module_defs = finetune_anyscale_def finetune_steps_def
  finetune_submit_and_wait_def finetune_after_wait_def verify_dataset_def submit_data_def
  copy_command_def generate_config_files_def base_model_yaml_path_def load_template_def
  make_job_config_def start_remote_training_def wait_for_training_def
  get_model_info_def copy_lora_weights_def update_model_config_def train_kwargs_or_new_def
  get_kwargs_def put_kwargs_def set_job_id_def TRAINING_METHODS_ANYSCALE_def PROVIDER_ANYSCALE_def
  get_yaml_config_def merge_config_def custom_modifications_def compute_config_dict_def
  config_filename_def hash_dict_def py_hash_def dict_update_def kw_get_def kw_get_default_def
  kw_del_def path_join_def py_lower_def py_str_int_def

lemma kw_get_Nil [simp]: "kw_get [] k = None"
  by (simp add: kw_get_def)

declare str_nat.simps [simp del]
lemma str_nat_numeral [simp]:
  "str_nat (numeral k) =
     (if (numeral k :: nat) < 10 then [''0123456789'' ! numeral k]
      else str_nat (numeral k div 10) @ [''0123456789'' ! (numeral k mod 10)])"
  by (subst str_nat.simps) simp
lemma str_nat_0 [simp]: "str_nat 0 = ''0''" by (subst str_nat.simps) simp
lemma str_nat_1 [simp]: "str_nat (Suc 0) = ''1''" by (subst str_nat.simps) simp


subsection \<open>What a step adds to the trace\<close>

lemma adds_return [intro!, simp]: "adds P (return_st x)"
  by (simp add: adds_def return_st_def)

lemma adds_raise [intro!, simp]: "adds P (raise_st e)"
  by (simp add: adds_def raise_st_def)

lemma adds_lift [intro!, simp]: "adds P (lift_err r)"
  by (simp add: adds_def lift_err_def)

lemma adds_emit [intro!]: "P ev \<Longrightarrow> adds P (emit ev)"
  by (simp add: adds_def emit_def)

lemma adds_bind [intro!]:
  assumes "adds P m" and "\<And>x. adds P (f x)"
  shows "adds P (bind_st m f)"
  unfolding adds_def
proof (intro allI)
  fix s
  obtain r s1 where m: "m s = (r, s1)" by (cases "m s")
  from assms(1) m obtain evs where 1: "heap s1 = heap s" "next_ref s1 = next_ref s"
      "trace s1 = trace s @ evs" "list_all P evs"
    unfolding adds_def by (metis snd_conv)
  show "heap (snd (bind_st m f s)) = heap s \<and> next_ref (snd (bind_st m f s)) = next_ref s
     \<and> (\<exists>evs. trace (snd (bind_st m f s)) = trace s @ evs \<and> list_all P evs)"
  proof (cases r)
    case (Inl e)
    with m 1 show ?thesis by (simp add: bind_st_def)
  next
    case (Inr x)
    from assms(2) [of x] obtain evs2 where 2: "heap (snd (f x s1)) = heap s1"
        "next_ref (snd (f x s1)) = next_ref s1"
        "trace (snd (f x s1)) = trace s1 @ evs2" "list_all P evs2"
      unfolding adds_def by blast
    with m 1 Inr show ?thesis by (simp add: bind_st_def)
  qed
qed

lemma adds_then [intro!]: "adds P m \<Longrightarrow> adds P k \<Longrightarrow> adds P (then_st m k)"
  by (simp add: then_st_def adds_bind)

lemma adds_call [intro!]: "P ev \<Longrightarrow> adds P (call ev r)"
  by (simp add: call_def adds_then adds_emit)

lemma adds_if [intro!]: "(c \<Longrightarrow> adds P a) \<Longrightarrow> (\<not> c \<Longrightarrow> adds P b) \<Longrightarrow> adds P (if c then a else b)"
  by simp

lemma adds_case_prod [intro!]: "(\<And>a b. adds P (f a b)) \<Longrightarrow> adds P (case p of (a, b) \<Rightarrow> f a b)"
  by (cases p) simp

lemma adds_set_job_id [intro!, simp]: "adds P (set_job_id jid)"
  by (simp add: adds_def set_job_id_def)

lemma adds_get_kwargs [intro!, simp]: "adds P (get_kwargs r)"
  by (simp add: adds_def get_kwargs_def)

lemma adds_verify_dataset: "P Validate \<Longrightarrow> P CheckLengths \<Longrightarrow> (\<And>e. is_log e \<Longrightarrow> P e) \<Longrightarrow> adds P (verify_dataset W ds)"
  unfolding verify_dataset_def by (intro adds_bind adds_call adds_if adds_then adds_emit adds_return) simp_all

lemma adds_copy_command: "(\<And>e. \<not> is_job_wait e \<Longrightarrow> P e) \<Longrightarrow> adds P (copy_command p r)"
  unfolding copy_command_def by (auto intro!: adds_emit adds_then)

lemma adds_upload_datasets:
  "(\<And>e. \<not> is_job_wait e \<Longrightarrow> P e) \<Longrightarrow> adds P (upload_datasets W storage ds ids)"
proof (induction ds arbitrary: ids)
  case Nil
  then show ?case by simp
next
  case (Cons d ds)
  obtain name path where d: "d = (name, path)" by (cases d)
  show ?case
    unfolding d upload_datasets.simps Let_def
    by (intro adds_bind adds_then adds_call adds_emit adds_copy_command Cons) simp_all
qed

lemma adds_submit_data:
  "(\<And>e. \<not> is_job_wait e \<Longrightarrow> P e) \<Longrightarrow> adds P (submit_data W tp ep)"
  unfolding submit_data_def
  by (auto intro!: adds_bind adds_upload_datasets split: option.split
      simp del: upload_datasets.simps)

lemma adds_base_model_yaml_path: "(\<And>e. is_log e \<Longrightarrow> P e) \<Longrightarrow> adds P (base_model_yaml_path kw model)"
  unfolding base_model_yaml_path_def Let_def
  by (auto intro!: adds_bind adds_then adds_emit)

lemma adds_load_template: "(\<And>p. P (YamlLoad p)) \<Longrightarrow> adds P (load_template W path)"
  unfolding load_template_def by (cases path) (auto intro!: adds_call)

lemma adds_generate_config_files:
  "(\<And>e. \<not> is_job_wait e \<Longrightarrow> P e) \<Longrightarrow> adds P (generate_config_files W tp ep kw)"
  unfolding generate_config_files_def
  by (auto intro!: adds_bind adds_then adds_emit adds_base_model_yaml_path adds_load_template
        elim: is_log.elims)

lemma adds_wait_for_training_val:
  "(\<And>e. \<not> is_job_wait e \<Longrightarrow> P e) \<Longrightarrow> adds P (wait_for_training W (ArgVal v))"
  unfolding wait_for_training_def by (auto intro!: adds_then adds_emit)

lemma adds_finetune_after_wait:
  "(\<And>e. \<not> is_job_wait e \<Longrightarrow> P e) \<Longrightarrow> adds P (finetune_after_wait W jid scp)"
  unfolding finetune_after_wait_def get_model_info_def copy_lora_weights_def update_model_config_def
  by (auto intro!: adds_bind adds_then adds_emit adds_call)

lemma adds_finetune_submit_and_wait:
  "(\<And>e. \<not> is_job_wait e \<Longrightarrow> P e) \<Longrightarrow> adds P (finetune_submit_and_wait W r rtp scp)"
  unfolding finetune_submit_and_wait_def start_remote_training_def
  by (auto intro!: adds_bind adds_then adds_emit adds_call adds_generate_config_files
       adds_wait_for_training_val adds_finetune_after_wait)

lemma adds_finetune_steps:
  "(\<And>e. \<not> is_job_wait e \<Longrightarrow> P e) \<Longrightarrow> adds P (finetune_steps W ds r scp)"
  unfolding finetune_steps_def
  by (auto intro!: adds_bind adds_then adds_emit adds_call adds_verify_dataset adds_submit_data
       adds_finetune_submit_and_wait elim: is_log.elims)


lemma adds_bind_lift:
  assumes "\<And>x. r = Inr x \<Longrightarrow> adds P (f x)"
  shows "adds P (bind_st (lift_err r) f)"
proof (cases r)
  case (Inl e)
  then show ?thesis by (simp add: adds_def bind_st_def lift_err_def)
next
  case (Inr x)
  with assms [of x] show ?thesis by (simp add: adds_def bind_st_def lift_err_def)
qed

subsection \<open>What a successful step returns\<close>

lemma bind_st_Inr:
  "bind_st m f s = (Inr y, s') \<longleftrightarrow> (\<exists>x s1. m s = (Inr x, s1) \<and> f x s1 = (Inr y, s'))"
  by (cases "m s"; cases "fst (m s)") (auto simp: bind_st_def)

lemma then_st_Inr:
  "then_st m k s = (Inr y, s') \<longleftrightarrow> (\<exists>x s1. m s = (Inr x, s1) \<and> k s1 = (Inr y, s'))"
  by (simp add: then_st_def bind_st_Inr)

lemma lift_err_Inr: "lift_err r s = (Inr y, s') \<longleftrightarrow> r = Inr y \<and> s' = s"
  by (auto simp: lift_err_def)

lemma call_Inr: "call ev r s = (Inr y, s') \<longleftrightarrow> r = Inr y \<and> s' = s\<lparr>trace := trace s @ [ev]\<rparr>"
  by (auto simp: call_def then_st_def bind_st_def emit_def lift_err_def)

lemma emit_Inr: "emit ev s = (Inr y, s') \<longleftrightarrow> s' = s\<lparr>trace := trace s @ [ev]\<rparr>"
  by (auto simp: emit_def)

lemma return_st_Inr: "return_st x s = (Inr y, s') \<longleftrightarrow> y = x \<and> s' = s"
  by (auto simp: return_st_def)

lemma raise_st_Inr: "raise_st e s = (Inr y, s') \<longleftrightarrow> False"
  by (auto simp: raise_st_def)

subsection \<open>A dataset that fails validation\<close>

lemma verify_dataset_False:
  assumes "fst (verify_dataset W ds s) = Inr False"
  shows "\<exists>rep. w_openai_data_validation W ds = Inr rep \<and> py_truthy rep"
  using assms
  by (cases "w_openai_data_validation W ds"; cases "w_check_message_lengths W ds")
     (auto simp: verify_dataset_def monad_defs split: if_splits)

text \<open>
  Claim C7. When the keyword dictionary passes the assertion of line 93 and
  \<^verbatim>\<open>verify_dataset\<close> returns \<^verbatim>\<open>False\<close>, \<^verbatim>\<open>finetune_anyscale\<close> raises \<^verbatim>\<open>RuntimeError\<close>. The
  events of the call are three progress lines, the validator's call, the validator's
  error line, the logged error message and the handler's line: no upload, no
  configuration file, no job submission.
\<close>

theorem invalid_dataset_runtime_error:
  assumes "no_model_key train_kwargs s"
    and "fst (verify_dataset W train_data s) = Inr False"
    and "s' = snd (finetune_anyscale W model train_data train_kwargs s)"
  shows "fst (finetune_anyscale W model train_data train_kwargs s) = Inl RuntimeError
    \<and> (\<exists>report. new_events s s' =
          [Log INFO ''[Finetune] Starting training process...'',
           Log INFO ''[Finetune] Retrieving the `serve_config_path` if provided, otherwise defaulting to `serve_1B.yaml`...'',
           Log INFO ''[Finetune] Validating the dataset format...'',
           Validate,
           LogVal ERROR ''Dataset validation failed: '' report,
           Log ERROR ''[Finetune] Error: Unable to verify that the dataset is in the correct format.'',
           LogExc RuntimeError])
    \<and> \<not> list_ex upload_config_or_submit (new_events s s')"
proof -
  from verify_dataset_False [OF assms(2)] obtain rep
    where rep: "w_openai_data_validation W train_data = Inr rep" "py_truthy rep" by blast
  show ?thesis
    using assms(1) rep unfolding assms(3)
    by (cases train_kwargs)
       (simp_all add: finetune_anyscale_def Let_def finetune_steps_def
         verify_dataset_def train_kwargs_or_new_def get_kwargs_def put_kwargs_def monad_defs
         new_events_def no_model_key_def TRAINING_METHODS_ANYSCALE_def)
qed

lemma example_verify_wizard:
  "fst (verify_dataset example_world [example_record ''wizard''] example_state) = Inr False"
  by (simp add: verify_dataset_def monad_defs example_world_def example_validation_def)

theorem invalid_dataset_witness:
  "no_model_key (Some 1) example_state
   \<and> fst (verify_dataset example_world [example_record ''wizard''] example_state) = Inr False
   \<and> fst (finetune_anyscale example_world ''meta-llama/Llama-3-8b'' [example_record ''wizard'']
           (Some 1) example_state) = Inl RuntimeError
   \<and> \<not> list_ex upload_config_or_submit
         (new_events example_state
            (snd (finetune_anyscale example_world ''meta-llama/Llama-3-8b''
                    [example_record ''wizard''] (Some 1) example_state)))"
proof -
  have k: "no_model_key (Some 1) example_state"
    by (simp add: no_model_key_def example_state_def example_heap_def kw_get_def)
  show ?thesis
    using k example_verify_wizard
      invalid_dataset_runtime_error [OF k example_verify_wizard refl, of "''meta-llama/Llama-3-8b''"]
    by simp
qed

subsection \<open>The caller's keyword dictionary\<close>

lemma heap_log_and_reraise: "heap (snd (log_and_reraise m s)) = heap (snd (m s))"
  by (cases "m s"; cases "fst (m s)") (auto simp: log_and_reraise_def)

lemma heap_finetune_steps: "heap (snd (finetune_steps W ds r scp s)) = heap s"
  using adds_finetune_steps [of "\<lambda>_. True" W ds r scp] by (simp add: adds_def)

text \<open>
  Claim C10, as stated, fails for an empty dictionary: it has no key \<^verbatim>\<open>model\<close>, so the
  precondition holds, but \<^verbatim>\<open>train_kwargs or {}\<close> replaces it by a new dictionary and the
  caller's one is the same after the call, still without the key.
\<close>

theorem caller_kwargs_counterexample:
  "kw_get (heap example_state 0) ''model'' = None
   \<and> heap (snd (finetune_anyscale example_world ''meta-llama/Llama-3-8b''
                  [example_record ''user''] (Some 0) example_state)) 0 = heap example_state 0
   \<and> kw_get (heap (snd (finetune_anyscale example_world ''meta-llama/Llama-3-8b''
                  [example_record ''user''] (Some 0) example_state)) 0) ''model'' = None"
  by (simp add: finetune_anyscale_def Let_def heap_log_and_reraise
       train_kwargs_or_new_def get_kwargs_def put_kwargs_def bind_st_def then_st_def emit_def
       raise_st_def heap_finetune_steps TRAINING_METHODS_ANYSCALE_def
       example_state_def example_heap_def kw_get_def split: prod.split sum.split)

text \<open>
  Claim C10, amended. For a caller's dictionary at an allocated address: when it holds
  the key \<^verbatim>\<open>model\<close> the call raises \<^verbatim>\<open>AssertionError\<close> and leaves it as it was; when it
  is empty the call leaves it as it was; otherwise the call sets \<^verbatim>\<open>model\<close> and removes
  \<^verbatim>\<open>serve_config_path\<close> in it, whatever happens later in the call.
\<close>

theorem caller_kwargs_mutation:
  assumes "r < next_ref s"
  shows "heap (snd (finetune_anyscale W model train_data (Some r) s)) r =
           (if kw_get (heap s r) ''model'' \<noteq> None \<or> heap s r = [] then heap s r
            else kw_del (kw_set (heap s r) ''model'' (PStr model)) ''serve_config_path'')
    \<and> (kw_get (heap s r) ''model'' \<noteq> None \<longrightarrow>
         fst (finetune_anyscale W model train_data (Some r) s) = Inl AssertionError)"
proof
  show "heap (snd (finetune_anyscale W model train_data (Some r) s)) r =
           (if kw_get (heap s r) ''model'' \<noteq> None \<or> heap s r = [] then heap s r
            else kw_del (kw_set (heap s r) ''model'' (PStr model)) ''serve_config_path'')"
    using assms
    by (simp add: finetune_anyscale_def Let_def heap_log_and_reraise
         train_kwargs_or_new_def get_kwargs_def put_kwargs_def bind_st_def then_st_def emit_def
         raise_st_def heap_finetune_steps TRAINING_METHODS_ANYSCALE_def
         split: prod.split sum.split)
  show "kw_get (heap s r) ''model'' \<noteq> None \<longrightarrow>
         fst (finetune_anyscale W model train_data (Some r) s) = Inl AssertionError"
    by (auto simp: finetune_anyscale_def Let_def train_kwargs_or_new_def get_kwargs_def
        log_and_reraise_def bind_st_def raise_st_def)
qed

theorem caller_kwargs_mutation_witness:
  "(1::nat) < next_ref example_state
   \<and> heap (snd (finetune_anyscale example_world ''meta-llama/Llama-3-8b''
                  [example_record ''user''] (Some 1) example_state)) 1
     = [(''hyperparameters'', example_hyperparameters), (''model'', PStr ''meta-llama/Llama-3-8b'')]
   \<and> (2::nat) < next_ref example_state
   \<and> kw_get (heap example_state 2) ''model'' \<noteq> None
   \<and> fst (finetune_anyscale example_world ''meta-llama/Llama-3-8b''
            [example_record ''user''] (Some 2) example_state) = Inl AssertionError
   \<and> heap (snd (finetune_anyscale example_world ''meta-llama/Llama-3-8b''
                  [example_record ''user''] (Some 2) example_state)) 2 = heap example_state 2"
proof -
  have r1: "(1::nat) < next_ref example_state" by (simp add: example_state_def)
  have r2: "(2::nat) < next_ref example_state" by (simp add: example_state_def)
  have m: "kw_get (heap example_state 2) ''model'' \<noteq> None"
    by (simp add: example_state_def example_heap_def kw_get_def)
  show ?thesis
    using r1 r2 m
      caller_kwargs_mutation [OF r1, of example_world "''meta-llama/Llama-3-8b''"
        "[example_record ''user'']"]
      caller_kwargs_mutation [OF r2, of example_world "''meta-llama/Llama-3-8b''"
        "[example_record ''user'']"]
    by (simp add: example_state_def example_heap_def kw_get_def kw_del_def)
qed

subsection \<open>The wait for the job\<close>

lemma finetune_anyscale_unfold:
  assumes "heap s r \<noteq> []" and "kw_get (heap s r) ''model'' = None"
  shows "finetune_anyscale W model ds (Some r) s =
     log_and_reraise
       (finetune_steps W ds r
          (kw_get_default (kw_set (heap s r) ''model'' (PStr model)) ''serve_config_path''
             (PStr ''serve_1B.yaml'')))
       (s\<lparr>trace := trace s @
            [Log INFO ''[Finetune] Starting training process...'',
             Log INFO ''[Finetune] Retrieving the `serve_config_path` if provided, otherwise defaulting to `serve_1B.yaml`...''],
          heap := (heap s)(r := kw_del (kw_set (heap s r) ''model'' (PStr model))
                                  ''serve_config_path'')\<rparr>)"
  using assms
  by (simp add: finetune_anyscale_def Let_def train_kwargs_or_new_def
       get_kwargs_def put_kwargs_def TRAINING_METHODS_ANYSCALE_def log_and_reraise_def
       bind_st_def then_st_def emit_def)

text \<open>
  Claim C4 does not hold of the code. The name \<^verbatim>\<open>wait_for_training\<close> is bound to the
  definition of line 317, which reads \<^verbatim>\<open>job.job_id\<close> of its argument, and line 127 passes
  it the id itself, a string. On the example call the job is submitted, then the wait
  raises \<^verbatim>\<open>AttributeError\<close>: the SDK's wait is never called and the model information is
  never retrieved.
\<close>

theorem wait_step_attribute_error:
  "(case finetune_anyscale example_world ''meta-llama/Llama-3-8b'' [example_record ''user'']
          (Some 1) example_state of
      (result, s') \<Rightarrow>
        result = Inl AttributeError
        \<and> external_calls (trace s') =
            [''openai_data_validation'', ''check_message_lengths'', ''save_data'',
             ''read_jsonl'', ''os.system'', ''yaml.safe_load'', ''yaml.safe_dump'',
             ''anyscale.job.submit''])"
proof -
  have a: "heap example_state 1 \<noteq> []" "kw_get (heap example_state 1) ''model'' = None"
    by (simp_all add: example_state_def example_heap_def kw_get_def)
  show ?thesis
    unfolding finetune_anyscale_unfold [OF a]
    by (simp add: module_defs monad_defs example_defs external_calls_def Let_def)
qed


text \<open>The same for every call: the SDK's wait is never called, and no call returns.\<close>

lemma fails_raise [intro!, simp]: "fails (raise_st e)"
  by (simp add: fails_def raise_st_def)

lemma fails_bind_right [intro]: "(\<And>x. fails (f x)) \<Longrightarrow> fails (bind_st m f)"
  unfolding fails_def bind_st_def
  by (auto split: prod.split sum.split)

lemma fails_then_right [intro]: "fails k \<Longrightarrow> fails (then_st m k)"
  by (simp add: then_st_def fails_bind_right)

lemma fails_then_left [intro]:
  assumes "fails m"
  shows "fails (then_st m k)"
  unfolding fails_def
proof
  fix s
  from assms obtain e s1 where "m s = (Inl e, s1)"
    unfolding fails_def by (metis isl_def prod.collapse)
  then show "isl (fst (then_st m k s))"
    by (simp add: then_st_def bind_st_def)
qed

lemma fails_if [intro!]: "(c \<Longrightarrow> fails a) \<Longrightarrow> (\<not> c \<Longrightarrow> fails b) \<Longrightarrow> fails (if c then a else b)"
  by simp

lemma fails_case_prod [intro!]: "(\<And>a b. fails (f a b)) \<Longrightarrow> fails (case p of (a, b) \<Rightarrow> f a b)"
  by (cases p) simp

lemma fails_wait_for_training_val: "fails (wait_for_training W (ArgVal v))"
  unfolding wait_for_training_def by (auto intro!: fails_then_right)

lemma fails_finetune_submit_and_wait: "fails (finetune_submit_and_wait W r p scp)"
  unfolding finetune_submit_and_wait_def
  by (intro fails_then_right fails_bind_right fails_case_prod fails_then_left
        fails_wait_for_training_val)

lemma fails_finetune_steps: "fails (finetune_steps W ds r scp)"
  unfolding finetune_steps_def
  by (intro fails_then_right fails_bind_right fails_case_prod fails_if fails_raise
        fails_finetune_submit_and_wait)

lemma fails_log_and_reraise:
  assumes "fails m"
  shows "fails (log_and_reraise m)"
  unfolding fails_def
proof
  fix s
  from assms obtain e s1 where "m s = (Inl e, s1)"
    unfolding fails_def by (metis isl_def prod.collapse)
  then show "isl (fst (log_and_reraise m s))"
    by (simp add: log_and_reraise_def)
qed

lemma finetune_anyscale_always_raises:
  "isl (fst (finetune_anyscale W model train_data train_kwargs s))"
proof -
  have "fails (finetune_anyscale W model train_data train_kwargs)"
    unfolding finetune_anyscale_def Let_def
    by (intro fails_log_and_reraise fails_bind_right fails_if fails_raise fails_then_right
          fails_finetune_steps)
  then show ?thesis
    by (simp add: fails_def)
qed


lemma traces_adds: "adds P m \<Longrightarrow> traces P m"
  by (simp add: adds_def traces_def)

lemma traces_raise [simp]: "traces P (raise_st e)"
  by (simp add: traces_def raise_st_def)

lemma traces_emit: "P ev \<Longrightarrow> traces P (emit ev)"
  by (simp add: traces_def emit_def)

lemma traces_put_kwargs [simp]: "traces P (put_kwargs r kw)"
  by (simp add: traces_def put_kwargs_def)

lemma traces_get_kwargs [simp]: "traces P (get_kwargs r)"
  by (simp add: traces_def get_kwargs_def)

lemma traces_train_kwargs_or_new [simp]: "traces P (train_kwargs_or_new arg)"
  by (cases arg) (simp_all add: traces_def train_kwargs_or_new_def)

lemma traces_bind:
  assumes "traces P m" and "\<And>x. traces P (f x)"
  shows "traces P (bind_st m f)"
  unfolding traces_def
proof
  fix s
  obtain r s1 where m: "m s = (r, s1)" by (cases "m s")
  from assms(1) m obtain evs where 1: "trace s1 = trace s @ evs" "list_all P evs"
    unfolding traces_def by (metis snd_conv)
  show "\<exists>evs. trace (snd (bind_st m f s)) = trace s @ evs \<and> list_all P evs"
  proof (cases r)
    case (Inl e)
    with m 1 show ?thesis by (simp add: bind_st_def)
  next
    case (Inr x)
    from assms(2) [of x] obtain evs2 where
      "trace (snd (f x s1)) = trace s1 @ evs2" "list_all P evs2"
      unfolding traces_def by blast
    with m 1 Inr show ?thesis by (simp add: bind_st_def)
  qed
qed

lemma traces_then: "traces P m \<Longrightarrow> traces P k \<Longrightarrow> traces P (then_st m k)"
  by (simp add: then_st_def traces_bind)

lemma traces_if: "(c \<Longrightarrow> traces P a) \<Longrightarrow> (\<not> c \<Longrightarrow> traces P b) \<Longrightarrow> traces P (if c then a else b)"
  by simp

lemma traces_log_and_reraise:
  assumes "traces P m" and "\<And>e. P (LogExc e)"
  shows "traces P (log_and_reraise m)"
  unfolding traces_def
proof
  fix s
  obtain r s1 where m: "m s = (r, s1)" by (cases "m s")
  from assms(1) m obtain evs where 1: "trace s1 = trace s @ evs" "list_all P evs"
    unfolding traces_def by (metis snd_conv)
  with m assms(2) show "\<exists>evs. trace (snd (log_and_reraise m s)) = trace s @ evs \<and> list_all P evs"
    by (cases r) (simp_all add: log_and_reraise_def)
qed

lemma finetune_anyscale_never_waits:
  "\<not> list_ex is_job_wait
       (new_events s (snd (finetune_anyscale W model train_data train_kwargs s)))"
proof -
  let ?P = "\<lambda>e. \<not> is_job_wait e"
  have "traces ?P (finetune_steps W train_data r scp)" for r scp
    by (rule traces_adds, rule adds_finetune_steps) simp
  then have "traces ?P (finetune_anyscale W model train_data train_kwargs)"
    unfolding finetune_anyscale_def Let_def
    by (intro traces_log_and_reraise traces_bind traces_then traces_if traces_emit) simp_all
  then obtain evs where "trace (snd (finetune_anyscale W model train_data train_kwargs s))
      = trace s @ evs" "list_all ?P evs"
    unfolding traces_def by blast
  then show ?thesis
    by (simp add: new_events_def list_ex_iff list_all_iff)
qed


subsection \<open>The guard on the training method\<close>













subsection \<open>The verdict of the dataset validator\<close>

text \<open>
  Claim C5, as stated, fails in its last part: the result of the message-length check
  is assigned to a variable that is never read. With a length check that reports a
  million tokens for the only record, the dataset is accepted all the same.
\<close>

theorem lengths_ignored_counterexample:
  "w_check_message_lengths (example_world\<lparr>w_check_message_lengths := long_lengths\<rparr>)
       [example_record ''user''] = Inr (PList [PInt 1000000])
   \<and> fst (verify_dataset (example_world\<lparr>w_check_message_lengths := long_lengths\<rparr>)
            [example_record ''user''] example_state) = Inr True"
  by (simp add: verify_dataset_def monad_defs example_world_def example_validation_def
       example_record_def long_lengths_def)

text \<open>
  Claim C5, amended. When the shape validation returns a report, \<^verbatim>\<open>verify_dataset\<close>
  returns \<^verbatim>\<open>False\<close> exactly when the report is not empty (as the report of an unsupported
  role is); otherwise it runs the message-length check and returns \<^verbatim>\<open>True\<close> whatever
  lengths the check returns (an exception of the check propagates).
\<close>

theorem verify_dataset_verdict:
  assumes "w_openai_data_validation W dataset = Inr report"
  shows "fst (verify_dataset W dataset s) =
           (if py_truthy report then Inr False
            else (case w_check_message_lengths W dataset of
                    Inl e \<Rightarrow> Inl e | Inr convo_lens \<Rightarrow> Inr True))"
  using assms
  by (cases "w_check_message_lengths W dataset") (simp_all add: verify_dataset_def monad_defs)

theorem verify_dataset_verdict_witness:
  "w_openai_data_validation example_world [example_record ''wizard'']
     = Inr (PDict [(PStr ''unrecognized_role'', PInt 1)])
   \<and> fst (verify_dataset example_world [example_record ''wizard''] example_state) = Inr False
   \<and> w_openai_data_validation example_world [example_record ''user''] = Inr (PDict [])
   \<and> fst (verify_dataset example_world [example_record ''user''] example_state) = Inr True"
proof -
  have a: "w_openai_data_validation example_world [example_record ''wizard'']
     = Inr (PDict [(PStr ''unrecognized_role'', PInt 1)])"
    by (simp add: example_world_def example_validation_def)
  have b: "w_openai_data_validation example_world [example_record ''user''] = Inr (PDict [])"
    by (simp add: example_world_def example_validation_def example_record_def)
  show ?thesis
    using a b verify_dataset_verdict [OF a, of example_state]
      verify_dataset_verdict [OF b, of example_state]
    by (simp add: example_world_def example_lengths_def)
qed

subsection \<open>The copy command of an upload\<close>

lemma upload_datasets_ok:
  assumes "list_all (\<lambda>(n, p). \<exists>items. w_read_jsonl W p = Inr items) ds"
  shows "\<exists>evs. upload_datasets W storage ds ids s =
            (Inr (ids @ map (\<lambda>(n, p). (n, path_join storage (last (py_split CHR ''/'' p)))) ds),
             s\<lparr>trace := trace s @ evs\<rparr>)
          \<and> filter (\<lambda>e. call_name e = ''os.system'') evs =
              map (\<lambda>(n, p).
                     let remote = path_join storage (last (py_split CHR ''/'' p)) in
                     OsSystem (if take 2 remote = ''s3'' then ''aws s3 cp '' @ p @ '' '' @ remote
                               else if take 2 remote = ''gs''
                               then ''gcloud storage cp '' @ p @ '' '' @ remote
                               else ''cp '' @ p @ '' '' @ remote)) ds"
  using assms
proof (induction ds arbitrary: ids s)
  case Nil
  show ?case by (rule exI [of _ "[]"]) (simp add: return_st_def)
next
  case (Cons d ds)
  obtain n p where d: "d = (n, p)" by (cases d)
  from Cons.prems d obtain items where items: "w_read_jsonl W p = Inr items"
    and rest: "list_all (\<lambda>(n, p). \<exists>items. w_read_jsonl W p = Inr items) ds"
    by auto
  define remote where "remote = path_join storage (last (py_split CHR ''/'' p))"
  define pre where "pre =
     [ReadJsonl p,
      Log INFO (''Number of items in '' @ n @ '' data: '' @ py_str_int (int (length items))),
      Log INFO (''Uploading '' @ n @ '' data to S3 at '' @ remote)]"
  define cp where "cp =
     (if take 2 remote = ''s3'' then [OsSystem (''aws s3 cp '' @ p @ '' '' @ remote)]
      else if take 2 remote = ''gs'' then [OsSystem (''gcloud storage cp '' @ p @ '' '' @ remote)]
      else [OsSystem (''cp '' @ p @ '' '' @ remote),
            Log INFO (''Copied '' @ p @ '' to '' @ remote)])"
  define s1 where "s1 = s\<lparr>trace := trace s @ pre @ cp\<rparr>"
  have step: "upload_datasets W storage (d # ds) ids s =
                upload_datasets W storage ds (ids @ [(n, remote)]) s1"
    unfolding d
    by (simp add: items monad_defs copy_command_def Let_def remote_def pre_def cp_def s1_def)
  from Cons.IH [OF rest, of "ids @ [(n, remote)]" s1] obtain evs where
    evs: "upload_datasets W storage ds (ids @ [(n, remote)]) s1 =
            (Inr ((ids @ [(n, remote)]) @
                  map (\<lambda>(n, p). (n, path_join storage (last (py_split CHR ''/'' p)))) ds),
             s1\<lparr>trace := trace s1 @ evs\<rparr>)"
      and cmds: "filter (\<lambda>e. call_name e = ''os.system'') evs =
              map (\<lambda>(n, p).
                     let remote = path_join storage (last (py_split CHR ''/'' p)) in
                     OsSystem (if take 2 remote = ''s3'' then ''aws s3 cp '' @ p @ '' '' @ remote
                               else if take 2 remote = ''gs''
                               then ''gcloud storage cp '' @ p @ '' '' @ remote
                               else ''cp '' @ p @ '' '' @ remote)) ds"
    by blast
  show ?case
  proof (rule exI [of _ "pre @ cp @ evs"], intro conjI)
    show "upload_datasets W storage (d # ds) ids s =
      (Inr (ids @ map (\<lambda>(n, p). (n, path_join storage (last (py_split CHR ''/'' p)))) (d # ds)),
       s\<lparr>trace := trace s @ pre @ cp @ evs\<rparr>)"
      unfolding step evs by (simp add: d remote_def s1_def)
    show "filter (\<lambda>e. call_name e = ''os.system'') (pre @ cp @ evs) =
      map (\<lambda>(n, p).
             let remote = path_join storage (last (py_split CHR ''/'' p)) in
             OsSystem (if take 2 remote = ''s3'' then ''aws s3 cp '' @ p @ '' '' @ remote
                       else if take 2 remote = ''gs''
                       then ''gcloud storage cp '' @ p @ '' '' @ remote
                       else ''cp '' @ p @ '' '' @ remote)) (d # ds)"
      unfolding filter_append cmds
      by (simp add: d pre_def cp_def remote_def Let_def)
  qed
qed

text \<open>
  Claim C9. Let the storage root be set and the files to upload (the training file,
  and the evaluation file when one is given) be readable. Then \<^verbatim>\<open>submit_data\<close> returns
  the storage root joined with the last component of each local path, and it runs
  exactly one shell command per file, chosen by the first two characters of the
  destination: \<^verbatim>\<open>aws s3 cp\<close> for \<^verbatim>\<open>s3\<close>, \<^verbatim>\<open>gcloud storage cp\<close> for \<^verbatim>\<open>gs\<close>, plain \<^verbatim>\<open>cp\<close>
  otherwise.
\<close>

theorem submit_data_copy_commands:
  assumes "w_environ W ''ANYSCALE_ARTIFACT_STORAGE'' = Some storage"
    and "paths = train_path # (case eval_path of None \<Rightarrow> [] | Some p \<Rightarrow> if p \<noteq> [] then [p] else [])"
    and "list_all (\<lambda>p. \<exists>items. w_read_jsonl W p = Inr items) paths"
    and "s' = snd (submit_data W train_path eval_path s)"
  shows "fst (submit_data W train_path eval_path s) =
           Inr (path_join storage (last (py_split CHR ''/'' train_path)),
                (case eval_path of
                   None \<Rightarrow> None
                 | Some p \<Rightarrow> if p \<noteq> [] then Some (path_join storage (last (py_split CHR ''/'' p)))
                             else None))
    \<and> filter (\<lambda>e. call_name e = ''os.system'') (new_events s s') =
        map (\<lambda>p. let remote = path_join storage (last (py_split CHR ''/'' p)) in
                  OsSystem (if take 2 remote = ''s3'' then ''aws s3 cp '' @ p @ '' '' @ remote
                            else if take 2 remote = ''gs''
                            then ''gcloud storage cp '' @ p @ '' '' @ remote
                            else ''cp '' @ p @ '' '' @ remote)) paths"
proof -
  define ds where "ds = (''train'', train_path) #
     (case eval_path of None \<Rightarrow> [] | Some p \<Rightarrow> if p \<noteq> [] then [(''val'', p)] else [])"
  have ds_paths: "map snd ds = paths"
    unfolding ds_def assms(2) by (simp split: option.split)
  have "list_all (\<lambda>(n, p). \<exists>items. w_read_jsonl W p = Inr items) ds"
    using assms(3) unfolding ds_paths [symmetric] by (simp add: list_all_iff case_prod_unfold)
  from upload_datasets_ok [OF this, of storage "[]" s] obtain evs where
    run: "upload_datasets W storage ds [] s =
            (Inr (map (\<lambda>(n, p). (n, path_join storage (last (py_split CHR ''/'' p)))) ds),
             s\<lparr>trace := trace s @ evs\<rparr>)"
    and cmds: "filter (\<lambda>e. call_name e = ''os.system'') evs =
              map (\<lambda>(n, p).
                     let remote = path_join storage (last (py_split CHR ''/'' p)) in
                     OsSystem (if take 2 remote = ''s3'' then ''aws s3 cp '' @ p @ '' '' @ remote
                               else if take 2 remote = ''gs''
                               then ''gcloud storage cp '' @ p @ '' '' @ remote
                               else ''cp '' @ p @ '' '' @ remote)) ds"
    by auto
  have sub: "submit_data W train_path eval_path s =
     bind_st (upload_datasets W storage ds [])
       (\<lambda>fine_tuning_file_ids.
          case map_of fine_tuning_file_ids ''train'' of
            None \<Rightarrow> raise_st KeyError
          | Some t \<Rightarrow> return_st (t, map_of fine_tuning_file_ids ''val'')) s"
    by (simp add: submit_data_def assms(1) ds_def)
  have res: "submit_data W train_path eval_path s =
     (Inr (path_join storage (last (py_split CHR ''/'' train_path)),
                (case eval_path of
                   None \<Rightarrow> None
                 | Some p \<Rightarrow> if p \<noteq> [] then Some (path_join storage (last (py_split CHR ''/'' p)))
                             else None)),
      s\<lparr>trace := trace s @ evs\<rparr>)"
  proof -
    have ids: "map_of (map (\<lambda>(n, p). (n, path_join storage (last (py_split CHR ''/'' p)))) ds) ''train''
                 = Some (path_join storage (last (py_split CHR ''/'' train_path)))"
      "map_of (map (\<lambda>(n, p). (n, path_join storage (last (py_split CHR ''/'' p)))) ds) ''val''
                 = (case eval_path of
                   None \<Rightarrow> None
                 | Some p \<Rightarrow> if p \<noteq> [] then Some (path_join storage (last (py_split CHR ''/'' p)))
                             else None)"
      by (simp_all add: ds_def split: option.split)
    show ?thesis
      unfolding sub bind_st_def run by (simp add: ids return_st_def)
  qed
  have "filter (\<lambda>e. call_name e = ''os.system'') (new_events s s') =
        map (\<lambda>(n, p).
                     let remote = path_join storage (last (py_split CHR ''/'' p)) in
                     OsSystem (if take 2 remote = ''s3'' then ''aws s3 cp '' @ p @ '' '' @ remote
                               else if take 2 remote = ''gs''
                               then ''gcloud storage cp '' @ p @ '' '' @ remote
                               else ''cp '' @ p @ '' '' @ remote)) ds"
    unfolding assms(4) res by (simp add: new_events_def cmds)
  also have "\<dots> = map (\<lambda>p. let remote = path_join storage (last (py_split CHR ''/'' p)) in
                  OsSystem (if take 2 remote = ''s3'' then ''aws s3 cp '' @ p @ '' '' @ remote
                            else if take 2 remote = ''gs''
                            then ''gcloud storage cp '' @ p @ '' '' @ remote
                            else ''cp '' @ p @ '' '' @ remote)) (map snd ds)"
    by (simp add: case_prod_unfold comp_def)
  finally show ?thesis
    unfolding ds_paths using res by simp
qed

theorem submit_data_copy_commands_witness:
  "w_environ example_world ''ANYSCALE_ARTIFACT_STORAGE'' = Some ''s3://bucket/artifacts''
   \<and> list_all (\<lambda>p. \<exists>items. w_read_jsonl example_world p = Inr items) [''/tmp/anyscale/data.jsonl'']
   \<and> fst (submit_data example_world ''/tmp/anyscale/data.jsonl'' None example_state)
       = Inr (''s3://bucket/artifacts/data.jsonl'', None)
   \<and> filter (\<lambda>e. call_name e = ''os.system'')
        (new_events example_state
           (snd (submit_data example_world ''/tmp/anyscale/data.jsonl'' None example_state)))
       = [OsSystem ''aws s3 cp /tmp/anyscale/data.jsonl s3://bucket/artifacts/data.jsonl'']"
proof -
  have e: "w_environ example_world ''ANYSCALE_ARTIFACT_STORAGE'' = Some ''s3://bucket/artifacts''"
    by (simp add: example_world_def example_environ_def)
  have p: "[''/tmp/anyscale/data.jsonl''] =
     ''/tmp/anyscale/data.jsonl'' # (case None of None \<Rightarrow> [] | Some p \<Rightarrow> if p \<noteq> [] then [p] else [])"
    by simp
  have r: "list_all (\<lambda>p. \<exists>items. w_read_jsonl example_world p = Inr items)
             [''/tmp/anyscale/data.jsonl'']"
    by (simp add: example_world_def)
  show ?thesis
    using e r submit_data_copy_commands [OF e p r refl, of example_state]
    by (simp add: path_join_def Let_def)
qed

subsection \<open>The fixed fields of the written configuration\<close>

lemma py_eq_PStr [simp]: "py_eq k (PStr a) \<longleftrightarrow> k = PStr a"
  by (cases k) auto

lemma dict_get_dict_set_str:
  "dict_get (dict_set d (PStr a) v) (PStr b) = (if a = b then Some v else dict_get d (PStr b))"
  by (induction d) auto

lemma dict_get_filter_not_None:
  "dict_get d k = Some v \<Longrightarrow> v \<noteq> PNone \<Longrightarrow> dict_get (filter (\<lambda>(k, v). v \<noteq> PNone) d) k = Some v"
  by (induction d) (auto split: if_splits)

lemma merge_config_fixed_fields:
  assumes "merge_config template model train_path eval_path kwargs = Inr data"
  shows "dict_get data (PStr ''logger'') = Some (PDict [(PStr ''provider'', PStr ''wandb'')])
    \<and> dict_get data (PStr ''num_checkpoints_to_keep'') = Some (PInt 10)"
proof -
  from assms obtain d1 where data: "data = filter (\<lambda>(k, v). v \<noteq> PNone)
                 (dict_update (dict_set d1 (PStr ''model_id'') model)
                    (custom_modifications model train_path eval_path kwargs))"
    by (auto simp: merge_config_def bind_err_Inr_iff)
  have "dict_get (dict_update (dict_set d1 (PStr ''model_id'') model)
                    (custom_modifications model train_path eval_path kwargs)) (PStr ''logger'')
          = Some (PDict [(PStr ''provider'', PStr ''wandb'')])"
    and "dict_get (dict_update (dict_set d1 (PStr ''model_id'') model)
                    (custom_modifications model train_path eval_path kwargs))
            (PStr ''num_checkpoints_to_keep'') = Some (PInt 10)"
    by (simp_all add: dict_update_def custom_modifications_def dict_get_dict_set_str)
  then show ?thesis
    unfolding data by (simp add: dict_get_filter_not_None)
qed

lemma adds_generate_config_files_fixed:
  "adds has_fixed_fields (generate_config_files W train_path eval_path kwargs)"
  unfolding generate_config_files_def
  by (auto intro!: adds_bind_lift adds_bind adds_then adds_emit adds_base_model_yaml_path
        adds_load_template dest: merge_config_fixed_fields elim: is_log.elims)

lemma generate_config_files_returns:
  assumes "generate_config_files W train_path eval_path kwargs s = (Inr result, s')"
  shows "length (filter (\<lambda>e. call_name e = ''yaml.safe_dump'') (new_events s s')) = 1"
proof -
  let ?nd = "\<lambda>e. call_name e \<noteq> ''yaml.safe_dump''"
  from assms obtain model path s1 template s2 data filename where
    1: "base_model_yaml_path kwargs model s = (Inr path, s1)"
    and 2: "load_template W path s1 = (Inr template, s2)"
    and 3: "s' = s2\<lparr>trace := trace s2 @ [LogVal INFO ''Model config data: '' (PDict data),
                                           YamlDump filename (PDict data)]\<rparr>"
    unfolding generate_config_files_def
    by (auto simp: bind_st_Inr then_st_Inr lift_err_Inr emit_Inr return_st_Inr)
  have "adds ?nd (base_model_yaml_path kwargs model)"
    by (rule adds_base_model_yaml_path) (auto elim: is_log.elims)
  with 1 obtain evs1 where e1: "trace s1 = trace s @ evs1" "list_all ?nd evs1"
    unfolding adds_def by (metis snd_conv)
  have "adds ?nd (load_template W path)"
    by (rule adds_load_template) simp
  with 2 obtain evs2 where e2: "trace s2 = trace s1 @ evs2" "list_all ?nd evs2"
    unfolding adds_def by (metis snd_conv)
  from e1 e2 have "filter (\<lambda>e. call_name e = ''yaml.safe_dump'') (evs1 @ evs2) = []"
    by (auto simp: list_all_iff filter_empty_conv)
  then show ?thesis
    unfolding 3 new_events_def using e1 e2 by simp
qed

text \<open>
  Claim C6. Every configuration that a call of \<^verbatim>\<open>generate_config_files\<close> writes has
  the logger provider \<^verbatim>\<open>wandb\<close> and keeps ten checkpoints, whatever the template and the
  hyperparameters say, and a call that returns has written exactly one configuration.
\<close>

theorem written_config_has_fixed_fields:
  assumes "s' = snd (generate_config_files W train_path eval_path kwargs s)"
  shows "list_all has_fixed_fields (new_events s s')
    \<and> (\<forall>result. fst (generate_config_files W train_path eval_path kwargs s) = Inr result \<longrightarrow>
          length (filter (\<lambda>e. call_name e = ''yaml.safe_dump'') (new_events s s')) = 1)"
proof (intro conjI allI impI)
  from adds_generate_config_files_fixed [of W train_path eval_path kwargs]
  obtain evs where "trace s' = trace s @ evs" "list_all has_fixed_fields evs"
    unfolding adds_def assms by blast
  then show "list_all has_fixed_fields (new_events s s')"
    by (simp add: new_events_def)
next
  fix result
  assume "fst (generate_config_files W train_path eval_path kwargs s) = Inr result"
  then have "generate_config_files W train_path eval_path kwargs s = (Inr result, s')"
    unfolding assms by (simp add: prod_eq_iff)
  then show "length (filter (\<lambda>e. call_name e = ''yaml.safe_dump'') (new_events s s')) = 1"
    by (rule generate_config_files_returns)
qed

lemma example_generate_config_files:
  "generate_config_files example_world ''s3://bucket/artifacts/data.jsonl'' None example_kwargs
     example_state =
   (Inr (PStr ''job_runner_config.yaml'',
         PDict (compute_config_dict example_world ''model_config_dspy_2273878.yaml'')),
    example_state\<lparr>trace :=
      [Log INFO ''Using default yaml template for model: configs/training/full_param/llama-3-8b.yaml'',
       YamlLoad ''configs/training/full_param/llama-3-8b.yaml'',
       LogVal INFO ''Model config data: ''
         (PDict [(PStr ''context_length'', PInt 512),
                 (PStr ''logger'', PDict [(PStr ''provider'', PStr ''wandb'')]),
                 (PStr ''num_checkpoints_to_keep'', PInt 10),
                 (PStr ''learning_rate'', PInt 1),
                 (PStr ''model_id'', PStr ''meta-llama/Llama-3-8b''),
                 (PStr ''train_path'', PStr ''s3://bucket/artifacts/data.jsonl'')]),
       YamlDump ''model_config_dspy_2273878.yaml''
         (PDict [(PStr ''context_length'', PInt 512),
                 (PStr ''logger'', PDict [(PStr ''provider'', PStr ''wandb'')]),
                 (PStr ''num_checkpoints_to_keep'', PInt 10),
                 (PStr ''learning_rate'', PInt 1),
                 (PStr ''model_id'', PStr ''meta-llama/Llama-3-8b''),
                 (PStr ''train_path'', PStr ''s3://bucket/artifacts/data.jsonl'')])]\<rparr>)"
  by (simp add: module_defs monad_defs example_defs Let_def)

theorem written_config_witness:
  "dict_get [(PStr ''logger'', PDict [(PStr ''provider'', PStr ''tensorboard'')]),
             (PStr ''num_checkpoints_to_keep'', PInt 3),
             (PStr ''learning_rate'', PInt 1)] (PStr ''num_checkpoints_to_keep'') = Some (PInt 3)
   \<and> kw_get example_kwargs ''hyperparameters'' =
       Some (PDict [(PStr ''logger'', PDict [(PStr ''provider'', PStr ''tensorboard'')]),
                    (PStr ''num_checkpoints_to_keep'', PInt 3),
                    (PStr ''learning_rate'', PInt 1)])
   \<and> list_all has_fixed_fields
        (new_events example_state
           (snd (generate_config_files example_world ''s3://bucket/artifacts/data.jsonl'' None
                   example_kwargs example_state)))
   \<and> length (filter (\<lambda>e. call_name e = ''yaml.safe_dump'')
        (new_events example_state
           (snd (generate_config_files example_world ''s3://bucket/artifacts/data.jsonl'' None
                   example_kwargs example_state)))) = 1"
  using written_config_has_fixed_fields [OF refl, of example_state example_world
      "''s3://bucket/artifacts/data.jsonl''" None example_kwargs]
  by (simp add: example_generate_config_files)
     (simp add: example_kwargs_def example_hyperparameters_def kw_get_def)

section \<open>Properties of the naming step\<close>

subsection \<open>Comparison, sorting and their errors\<close>

lemma py_eq_scalar: "scalar a \<Longrightarrow> scalar b \<Longrightarrow> py_eq a b \<longleftrightarrow> skey a = skey b"
  by (cases a; cases b) auto

lemma py_lt_scalar:
  "scalar a \<Longrightarrow> scalar b \<Longrightarrow>
   py_lt a b = (if fst (skey a) = fst (skey b) \<and> fst (skey a) \<noteq> 0 then Inr (skey a < skey b)
                else Inl TypeError)"
  by (cases a; cases b) (auto simp: less_prod_def)

lemma py_lt_error: "py_lt a b = Inl e \<Longrightarrow> e = TypeError"
  and py_lt_seq_error: "py_lt_seq xs ys = Inl e \<Longrightarrow> e = TypeError"
  by (induction a b and xs ys rule: py_lt_py_lt_seq.induct) (auto split: if_splits)

lemma py_insort_error: "py_insort x ys = Inl e \<Longrightarrow> e = TypeError"
  by (induction ys) (auto simp: bind_err_def split: sum.splits if_splits dest: py_lt_error)

lemma py_sorted_error: "py_sorted xs = Inl e \<Longrightarrow> e = TypeError"
  by (induction xs) (auto simp: bind_err_def split: sum.splits dest: py_insort_error)

lemma map_err_error:
  "map_err f xs = Inl e \<Longrightarrow> \<exists>x \<in> set xs. f x = Inl e"
  by (induction xs) (auto simp: bind_err_def split: sum.splits)

lemma freeze_error: "freeze v = Inl e \<Longrightarrow> e = TypeError"
proof (induction v arbitrary: e rule: freeze.induct)
  case (1 d)
  then show ?case
    by (auto simp: bind_err_def split: sum.splits dest!: map_err_error py_sorted_error)
next
  case (2 d)
  then show ?case
    by (auto simp: bind_err_def split: sum.splits dest!: map_err_error py_sorted_error)
next
  case (3 d)
  then show ?case
    by (auto simp: bind_err_def split: sum.splits dest!: map_err_error py_sorted_error)
qed simp_all

lemma py_eq_refl: "py_eq v v"
proof (induction v)
  case (PList xs)
  then show ?case by (simp add: list_all2_same)
next
  case (PTuple xs)
  then show ?case by (simp add: list_all2_same)
next
  case (PSet xs)
  then show ?case by (auto simp: list_all_iff list_ex_iff)
next
  case (PDict d)
  have "py_eq k k \<and> py_eq v v" if "(k, v) \<in> set d" for k v
    using PDict.IH(1) [of "(k, v)" k] PDict.IH(2) [of "(k, v)" v] that by simp
  then show ?case
    by (fastforce simp: list_all_iff list_ex_iff)
qed simp_all

text \<open>Insertion sort against a key function.\<close>

lemma py_insort_sort_key:
  assumes "\<And>y. y \<in> set ys \<Longrightarrow> py_lt y x = Inr (f y < f x)"
  shows "py_insort x ys = Inr (insort_key f x ys)"
  using assms by (induction ys) (auto simp: not_less)

lemma py_sorted_sort_key:
  assumes "\<And>x y. x \<in> set xs \<Longrightarrow> y \<in> set xs \<Longrightarrow> py_lt y x = Inr (f y < f x)"
  shows "py_sorted xs = Inr (sort_key f xs)"
  using assms
proof (induction xs)
  case Nil
  then show ?case by simp
next
  case (Cons x xs)
  then have "py_sorted xs = Inr (sort_key f xs)" by simp
  moreover have "py_insort x (sort_key f xs) = Inr (insort_key f x (sort_key f xs))"
    by (rule py_insort_sort_key) (simp add: Cons.prems)
  ultimately show ?case by simp
qed

text \<open>When insertion sort succeeds on two or more elements, any two of them compare.\<close>

lemma py_insort_Inr_hd:
  "py_insort x (y # ys) = Inr r \<Longrightarrow> comparable y x"
  by (auto simp: comparable_def bind_err_Inr_iff)

lemma py_sorted_Inr_comparable:
  assumes "py_sorted xs = Inr r"
    and eqv: "\<And>a b c. a \<in> set xs \<Longrightarrow> b \<in> set xs \<Longrightarrow> c \<in> set xs \<Longrightarrow>
                comparable a b \<Longrightarrow> comparable b c \<Longrightarrow> comparable a c"
    and sym: "\<And>a b. a \<in> set xs \<Longrightarrow> b \<in> set xs \<Longrightarrow> comparable a b \<Longrightarrow> comparable b a"
    and "2 \<le> length xs"
  shows "\<forall>a \<in> set xs. \<forall>b \<in> set xs. comparable a b"
  using assms
proof (induction xs arbitrary: r)
  case Nil
  show ?case by simp
next
  case (Cons x xs)
  note tr = Cons.prems(2) and sy = Cons.prems(3)
  from Cons.prems(1) have "bind_err (py_sorted xs) (\<lambda>r. py_insort x r) = Inr r"
    by simp
  then obtain r' where r': "py_sorted xs = Inr r'" "py_insort x r' = Inr r"
    unfolding bind_err_Inr_iff by blast
  from Cons.prems(4) have ne: "xs \<noteq> []" by auto
  have "mset r' = mset xs" by (rule mset_py_sorted [OF r'(1)])
  with ne have "r' \<noteq> []" by auto
  then obtain y ys where r'c: "r' = y # ys" by (cases r') auto
  have yx: "comparable y x"
    by (rule py_insort_Inr_hd [of x y ys r]) (use r'(2) r'c in simp)
  have "set r' = set xs" by (rule set_py_sorted [OF r'(1)])
  then have yin: "y \<in> set xs" unfolding r'c by auto
  have xy: "comparable x y" using sy [of y x] yx yin by simp
  have xx: "comparable x x"
    using tr [of x y x] xy yx yin by simp
  have yy: "comparable y y"
    using tr [of y x y] xy yx yin by simp
  have all_xs: "comparable a b" if "a \<in> set xs" "b \<in> set xs" for a b
  proof (cases "2 \<le> length xs")
    case True
    have "\<forall>a \<in> set xs. \<forall>b \<in> set xs. comparable a b"
    proof (rule Cons.IH [OF r'(1) _ _ True])
      fix a b c
      assume "a \<in> set xs" "b \<in> set xs" "c \<in> set xs" "comparable a b" "comparable b c"
      then show "comparable a c" using tr [of a b c] by simp
    next
      fix a b
      assume "a \<in> set xs" "b \<in> set xs" "comparable a b"
      then show "comparable b a" using sy [of a b] by simp
    qed
    with that show ?thesis by blast
  next
    case False
    then have "length xs < 2" by simp
    with ne obtain z where "xs = [z]" by (cases xs) auto
    with yin that have "a = y" "b = y" by auto
    with yy show ?thesis by simp
  qed
  have to_x: "comparable a x" if "a \<in> set xs" for a
    using tr [of a y x] all_xs [OF that yin] yx that yin by simp
  have from_x: "comparable x a" if "a \<in> set xs" for a
    using sy [of a x] to_x [OF that] that by simp
  show ?case
  proof (intro ballI)
    fix a b
    assume "a \<in> set (x # xs)" "b \<in> set (x # xs)"
    then consider "a = x" "b = x" | "a = x" "b \<in> set xs" | "a \<in> set xs" "b = x"
      | "a \<in> set xs" "b \<in> set xs" by auto
    then show "comparable a b"
    proof cases
      case 1
      then show ?thesis using xx by simp
    next
      case 2
      then show ?thesis using from_x by simp
    next
      case 3
      then show ?thesis using to_x by simp
    next
      case 4
      then show ?thesis using all_xs by simp
    qed
  qed
qed

subsection \<open>Sorting the items of a dictionary\<close>

lemma is_itemE:
  assumes "is_item a"
  obtains k fv where "a = PTuple [k, fv]" "scalar k"
  using assms by (elim is_item.elims) auto

lemma item_lt_same: "is_item a \<Longrightarrow> py_lt a a = Inr False"
  by (erule is_itemE) (simp add: py_eq_refl)

lemma item_lt:
  assumes "is_item a" "is_item b" "item_key a \<noteq> item_key b"
  shows "py_lt a b =
           (if fst (item_key a) = fst (item_key b) \<and> fst (item_key a) \<noteq> 0
            then Inr (item_key a < item_key b) else Inl TypeError)"
proof -
  from assms(1) obtain k v where a: "a = PTuple [k, v]" "scalar k" by (rule is_itemE)
  from assms(2) obtain k' v' where b: "b = PTuple [k', v']" "scalar k'" by (rule is_itemE)
  from assms(3) a b have "\<not> py_eq k k'" by (simp add: py_eq_scalar)
  then show ?thesis
    using a b by (simp add: py_lt_scalar)
qed

lemma items_sorted_same_kind:
  assumes "list_all is_item xs" "distinct (map item_key xs)" "same_kind xs"
  shows "py_sorted xs = Inr (sort_key item_key xs)"
proof (rule py_sorted_sort_key)
  fix x y
  assume x: "x \<in> set xs" and y: "y \<in> set xs"
  from assms(1) x y have ix: "is_item x" and iy: "is_item y" by (auto simp: list_all_iff)
  from assms(3) x y obtain c where c: "c \<noteq> 0" "fst (item_key x) = c" "fst (item_key y) = c"
    unfolding same_kind_def by blast
  show "py_lt y x = Inr (item_key y < item_key x)"
  proof (cases "x = y")
    case True
    with ix show ?thesis by (simp add: item_lt_same)
  next
    case False
    from assms(2) have "inj_on item_key (set xs)" by (simp add: distinct_map)
    with False x y have "item_key y \<noteq> item_key x" by (auto dest: inj_onD)
    with item_lt [OF iy ix] c show ?thesis by simp
  qed
qed

lemma items_sorted_Inr_same_kind:
  assumes "list_all is_item xs" "distinct (map item_key xs)" "2 \<le> length xs"
    and "py_sorted xs = Inr r"
  shows "same_kind xs"
proof -
  from assms(2) have inj: "inj_on item_key (set xs)" and dist: "distinct xs"
    by (simp_all add: distinct_map)
  have item: "is_item a" if "a \<in> set xs" for a
    using assms(1) that by (simp add: list_all_iff)
  have cmp: "comparable a b \<longleftrightarrow> a = b \<or> (fst (item_key a) = fst (item_key b) \<and> fst (item_key a) \<noteq> 0)"
    if "a \<in> set xs" "b \<in> set xs" for a b
  proof (cases "a = b")
    case True
    with item [OF that(1)] show ?thesis by (simp add: comparable_def item_lt_same)
  next
    case False
    with inj that have "item_key a \<noteq> item_key b" by (auto dest: inj_onD)
    with item_lt [OF item [OF that(1)] item [OF that(2)]] False show ?thesis
      by (simp add: comparable_def)
  qed
  have all: "\<forall>a \<in> set xs. \<forall>b \<in> set xs. comparable a b"
  proof (rule py_sorted_Inr_comparable [OF assms(4) _ _ assms(3)])
    fix a b c
    assume "a \<in> set xs" "b \<in> set xs" "c \<in> set xs" "comparable a b" "comparable b c"
    then show "comparable a c"
      using cmp [of a b] cmp [of b c] cmp [of a c] by auto
  next
    fix a b
    assume "a \<in> set xs" "b \<in> set xs" "comparable a b"
    then show "comparable b a"
      using cmp [of a b] cmp [of b a] by auto
  qed
  from assms(3) obtain a b zs where xs: "xs = a # b # zs"
    by (cases xs; cases "tl xs") auto
  with dist have ab: "a \<noteq> b" "a \<in> set xs" "b \<in> set xs" by auto
  with all cmp [of a b] have ka: "fst (item_key a) \<noteq> 0" by auto
  have "fst (item_key x) = fst (item_key a)" if "x \<in> set xs" for x
  proof (cases "x = a")
    case True
    then show ?thesis by simp
  next
    case False
    with all cmp [of x a] that ab show ?thesis by auto
  qed
  with ka show ?thesis unfolding same_kind_def by blast
qed

lemma same_kind_mset: "mset xs = mset ys \<Longrightarrow> same_kind xs = same_kind ys"
  unfolding same_kind_def by (metis set_mset_mset)

lemma items_sorted_perm:
  assumes "list_all is_item xs" "distinct (map item_key xs)" "mset ys = mset xs"
  shows "py_sorted ys = py_sorted xs"
proof -
  have set_eq: "set ys = set xs" using assms(3) by (metis set_mset_mset)
  have len: "length ys = length xs" using assms(3) by (metis size_mset)
  have items_ys: "list_all is_item ys" using assms(1) set_eq by (simp add: list_all_iff)
  have "mset (map item_key ys) = mset (map item_key xs)" using assms(3) by simp
  with assms(2) have dist_ys: "distinct (map item_key ys)"
    by (metis mset_eq_imp_distinct_iff)
  show ?thesis
  proof (cases "same_kind xs")
    case True
    then have sk: "same_kind ys" using same_kind_mset [OF assms(3)] by simp
    have inj: "inj_on item_key (set ys)" using dist_ys by (simp add: distinct_map)
    have "sort_key item_key ys = sort_key item_key xs"
      by (rule sort_key_eq_sort_key [OF assms(3) inj])
    then show ?thesis
      using items_sorted_same_kind [OF assms(1,2) True]
        items_sorted_same_kind [OF items_ys dist_ys sk] by simp
  next
    case False
    then have nsk: "\<not> same_kind ys" using same_kind_mset [OF assms(3)] by simp
    show ?thesis
    proof (cases "2 \<le> length xs")
      case True
      have "isl (py_sorted xs)"
        using items_sorted_Inr_same_kind [OF assms(1,2) True] False
        by (cases "py_sorted xs") auto
      moreover have "isl (py_sorted ys)"
        using items_sorted_Inr_same_kind [OF items_ys dist_ys] True len nsk
        by (cases "py_sorted ys") auto
      ultimately show ?thesis
        by (cases "py_sorted xs"; cases "py_sorted ys") (auto dest!: py_sorted_error)
    next
      case False
      then have "length xs < 2" by simp
      then consider "xs = []" | z where "xs = [z]" by (cases xs; cases "tl xs") auto
      then show ?thesis
        using assms(3) by cases auto
    qed
  qed
qed

subsection \<open>Comparison of values that differ in the order of their keys\<close>

text \<open>Two dictionaries with the same keys in another order.\<close>

lemma dict_partner_converse:
  assumes d: "distinct (map fst da)" and len: "length da = length db"
    and fw: "\<forall>k v. (k, v) \<in> set da \<longrightarrow> (\<exists>v'. (k, v') \<in> set db \<and> R v v')"
  shows "distinct (map fst db)"
    and "fst ` set db = fst ` set da"
    and "\<forall>k v'. (k, v') \<in> set db \<longrightarrow> (\<exists>v. (k, v) \<in> set da \<and> R v v')"
proof -
  have sub: "fst ` set da \<subseteq> fst ` set db"
  proof
    fix k assume "k \<in> fst ` set da"
    then obtain v where "(k, v) \<in> set da" by auto
    with fw show "k \<in> fst ` set db" by force
  qed
  have "card (fst ` set da) = length da"
    using d by (metis distinct_card length_map set_map)
  moreover have "card (fst ` set db) \<le> length db"
    by (metis card_length length_map set_map)
  moreover have "card (fst ` set da) \<le> card (fst ` set db)"
    by (rule card_mono [OF _ sub]) simp
  ultimately have c: "card (fst ` set db) = length db" "card (fst ` set da) = card (fst ` set db)"
    using len by auto
  show dd: "distinct (map fst db)"
    using c(1) by (metis card_distinct length_map set_map)
  show eq: "fst ` set db = fst ` set da"
    using card_subset_eq [OF _ sub c(2)] by simp
  show "\<forall>k v'. (k, v') \<in> set db \<longrightarrow> (\<exists>v. (k, v) \<in> set da \<and> R v v')"
  proof (intro allI impI)
    fix k v' assume kv: "(k, v') \<in> set db"
    then have "k \<in> fst ` set da" using eq by force
    then obtain v where v: "(k, v) \<in> set da" by auto
    with fw obtain v'' where v'': "(k, v'') \<in> set db" "R v v''" by blast
    from dd kv v''(1) have "v'' = v'" by (meson eq_key_imp_eq_value)
    with v v''(2) show "\<exists>v. (k, v) \<in> set da \<and> R v v'" by blast
  qed
qed

lemma yaml_dict_keys:
  assumes "yaml_value (PDict d)"
  shows "distinct (map fst d)" and "inj_on skey (fst ` set d)"
    and "\<And>k v. (k, v) \<in> set d \<Longrightarrow> scalar k \<and> yaml_value v"
proof -
  from assms have dk: "distinct (map (skey \<circ> fst) d)"
    by (simp add: comp_def case_prod_unfold)
  then have "distinct (map skey (map fst d))" by (simp only: map_map)
  then have "distinct (map fst d) \<and> inj_on skey (set (map fst d))"
    by (simp only: distinct_map)
  then show "distinct (map fst d)" "inj_on skey (fst ` set d)"
    by (simp_all only: set_map)
  fix k v assume "(k, v) \<in> set d"
  with assms show "scalar k \<and> yaml_value v" by (auto simp: list_all_iff)
qed

lemma reorder_eq_dictD:
  assumes "reorder_eq (PDict da) b"
  shows "\<exists>db. b = PDict db \<and> length da = length db \<and>
           (\<forall>k v. (k, v) \<in> set da \<longrightarrow> (\<exists>v'. (k, v') \<in> set db \<and> reorder_eq v v'))"
  using assms by (cases b) (auto simp: list_all_iff list_ex_iff)

lemma reorder_eq_listD:
  assumes "reorder_eq (PList xs) b"
  obtains ys where "b = PList ys" "list_all2 reorder_eq xs ys"
proof (cases b)
  case (PList ys)
  with assms have "list_all2 reorder_eq xs ys" by simp
  with PList show ?thesis by (rule that)
qed (use assms in simp_all)

lemma reorder_eq_yaml: "yaml_value a \<Longrightarrow> reorder_eq a b \<Longrightarrow> yaml_value b"
proof (induction a arbitrary: b)
  case (PList xs)
  from PList.prems(2) obtain ys where b: "b = PList ys" "list_all2 reorder_eq xs ys"
    by (rule reorder_eq_listD)
  have "yaml_value y" if "y \<in> set ys" for y
  proof -
    from that b(2) obtain x where "x \<in> set xs" "reorder_eq x y"
      by (metis in_set_conv_nth list_all2_conv_all_nth)
    with PList.IH [of x y] PList.prems(1) show ?thesis by (simp add: list_all_iff)
  qed
  with b show ?case by (simp add: list_all_iff)
next
  case (PDict da)
  from reorder_eq_dictD [OF PDict.prems(2)] obtain db where b: "b = PDict db" "length da = length db"
    and fw': "\<forall>k v. (k, v) \<in> set da \<longrightarrow> (\<exists>v'. (k, v') \<in> set db \<and> reorder_eq v v')"
    by blast
  from fw' have fw: "\<exists>v'. (k, v') \<in> set db \<and> reorder_eq v v'" if "(k, v) \<in> set da" for k v
    using that by blast
  note ya = yaml_dict_keys [OF PDict.prems(1)]
  note cv = dict_partner_converse [of da db reorder_eq, OF ya(1) b(2) fw']
  have ent: "scalar k \<and> yaml_value v'" if "(k, v') \<in> set db" for k v'
  proof -
    from cv(3) that obtain v where v: "(k, v) \<in> set da" "reorder_eq v v'" by blast
    from PDict.IH [of "(k, v)" v v'] v ya(3) [OF v(1)] show ?thesis by simp
  qed
  have "distinct (map fst db) \<and> inj_on skey (set (map fst db))"
    using cv(1) ya(2) cv(2) by (simp only: set_map)
  then have "distinct (map skey (map fst db))"
    by (simp only: distinct_map)
  then have "distinct (map (\<lambda>(k, v). skey k) db)"
    by (simp add: comp_def case_prod_unfold)
  with ent b show ?case by (auto simp: list_all_iff)
qed auto

lemma reorder_eq_cases:
  assumes "reorder_eq b b'"
  shows "(\<exists>ys ys'. b = PList ys \<and> b' = PList ys' \<and> list_all2 reorder_eq ys ys')
       \<or> (\<exists>d d'. b = PDict d \<and> b' = PDict d' \<and> reorder_eq (PDict d) (PDict d'))
       \<or> (b' = b \<and> (\<forall>ys. b \<noteq> PList ys) \<and> (\<forall>d. b \<noteq> PDict d))"
  using assms by (cases b; cases b') auto

lemma seq_cmp_cong:
  assumes "list_all2 R xs xs'" "list_all2 S ys ys'"
    and "\<And>x x' y y'. x \<in> set xs \<Longrightarrow> y \<in> set ys \<Longrightarrow> R x x' \<Longrightarrow> S y y' \<Longrightarrow>
           py_eq x y = py_eq x' y' \<and> py_lt x y = py_lt x' y'"
  shows "list_all2 py_eq xs ys = list_all2 py_eq xs' ys' \<and> py_lt_seq xs ys = py_lt_seq xs' ys'"
  using assms
proof (induction xs xs' arbitrary: ys ys' rule: list_all2_induct)
  case Nil
  then show ?case by (cases ys; cases ys') auto
next
  case (Cons x xs x' xs')
  show ?case
  proof (cases ys)
    case Nil
    with Cons.prems(1) show ?thesis by simp
  next
    case ys: (Cons y yt)
    with Cons.prems(1) obtain y' yt' where ys': "ys' = y' # yt'" "S y y'" "list_all2 S yt yt'"
      by (auto simp: list_all2_Cons1)
    have hd: "py_eq x y = py_eq x' y' \<and> py_lt x y = py_lt x' y'"
      by (rule Cons.prems(2)) (simp_all add: ys Cons.hyps ys')
    have tl: "list_all2 py_eq xs yt = list_all2 py_eq xs' yt' \<and> py_lt_seq xs yt = py_lt_seq xs' yt'"
      by (rule Cons.IH [OF ys'(3)]) (rule Cons.prems(2), simp_all add: ys)
    from hd tl show ?thesis by (simp add: ys ys')
  qed
qed

lemma py_cmp_reorder:
  "yaml_value a \<Longrightarrow> yaml_value b \<Longrightarrow> reorder_eq a a' \<Longrightarrow> reorder_eq b b' \<Longrightarrow>
   py_eq a b = py_eq a' b' \<and> py_lt a b = py_lt a' b'"
proof (induction a arbitrary: a' b b')
  case PNone
  from reorder_eq_cases [OF PNone.prems(4)] PNone.prems(3) show ?case by auto
next
  case (PBool x)
  from reorder_eq_cases [OF PBool.prems(4)] PBool.prems(3) show ?case by auto
next
  case (PInt x)
  from reorder_eq_cases [OF PInt.prems(4)] PInt.prems(3) show ?case by auto
next
  case (PStr x)
  from reorder_eq_cases [OF PStr.prems(4)] PStr.prems(3) show ?case by auto
next
  case (PTuple x)
  then show ?case by simp
next
  case (PSet x)
  from reorder_eq_cases [OF PSet.prems(4)] PSet.prems(3) show ?case by auto
next
  case (PList xs)
  from PList.prems(3) obtain xs' where a': "a' = PList xs'" "list_all2 reorder_eq xs xs'"
    by (rule reorder_eq_listD)
  from reorder_eq_cases [OF PList.prems(4)] show ?case
  proof (elim disjE exE conjE)
    fix ys ys'
    assume b: "b = PList ys" "b' = PList ys'" "list_all2 reorder_eq ys ys'"
    have "list_all2 py_eq xs ys = list_all2 py_eq xs' ys' \<and> py_lt_seq xs ys = py_lt_seq xs' ys'"
    proof (rule seq_cmp_cong [OF a'(2) b(3)])
      fix x x' y y'
      assume "x \<in> set xs" "y \<in> set ys" "reorder_eq x x'" "reorder_eq y y'"
      with PList.IH [of x y x' y'] PList.prems(1,2) b(1)
      show "py_eq x y = py_eq x' y' \<and> py_lt x y = py_lt x' y'"
        by (simp add: list_all_iff)
    qed
    with a' b show ?thesis by simp
  next
    fix d d'
    assume "b = PDict d" "b' = PDict d'"
    with a' show ?thesis by simp
  next
    assume "b' = b" "\<forall>ys. b \<noteq> PList ys" "\<forall>d. b \<noteq> PDict d"
    with a' show ?thesis by (cases b) auto
  qed
next
  case (PDict da)
  from reorder_eq_dictD [OF PDict.prems(3)] obtain da' where a': "a' = PDict da'"
    "length da = length da'"
    and fa: "\<forall>k v. (k, v) \<in> set da \<longrightarrow> (\<exists>v'. (k, v') \<in> set da' \<and> reorder_eq v v')"
    by blast
  note ya = yaml_dict_keys [OF PDict.prems(1)]
  note ca = dict_partner_converse [of da da' reorder_eq, OF ya(1) a'(2) fa]
  from reorder_eq_cases [OF PDict.prems(4)] show ?case
  proof (elim disjE exE conjE)
    fix ys ys'
    assume "b = PList ys" "b' = PList ys'"
    with a' show ?thesis by simp
  next
    assume "b' = b" "\<forall>ys. b \<noteq> PList ys" "\<forall>d. b \<noteq> PDict d"
    with a' show ?thesis by (cases b) auto
  next
    fix db db'
    assume b: "b = PDict db" "b' = PDict db'" and r: "reorder_eq (PDict db) (PDict db')"
    from reorder_eq_dictD [OF r] have lb: "length db = length db'"
      and fb: "\<forall>k v. (k, v) \<in> set db \<longrightarrow> (\<exists>v'. (k, v') \<in> set db' \<and> reorder_eq v v')"
      by auto
    from PDict.prems(2) b(1) have yb: "yaml_value (PDict db)" by simp
    note ybk = yaml_dict_keys [OF yb]
    note cb = dict_partner_converse [of db db' reorder_eq, OF ybk(1) lb fb]
    have ih: "py_eq v w = py_eq v' w'"
      if "(k, v) \<in> set da" "(l, w) \<in> set db" "reorder_eq v v'" "reorder_eq w w'" for k v l w v' w'
      using PDict.IH [of "(k, v)" v w v' w'] that ya(3) [OF that(1)] ybk(3) [OF that(2)] by simp
    have "(\<forall>(k, v) \<in> set da. \<exists>(k', v') \<in> set db. py_eq k k' \<and> py_eq v v')
        \<longleftrightarrow> (\<forall>(k, v) \<in> set da'. \<exists>(k', v') \<in> set db'. py_eq k k' \<and> py_eq v v')"
    proof (intro iffI ballI)
      fix e assume h: "\<forall>(k, v) \<in> set da. \<exists>(k', v') \<in> set db. py_eq k k' \<and> py_eq v v'"
        and e: "e \<in> set da'"
      obtain k v1 where e1: "e = (k, v1)" by (cases e)
      with e ca(3) obtain v where v: "(k, v) \<in> set da" "reorder_eq v v1" by blast
      with h obtain k' v' where w: "(k', v') \<in> set db" "py_eq k k'" "py_eq v v'" by fast
      with fb obtain v1' where w1: "(k', v1') \<in> set db'" "reorder_eq v' v1'" by blast
      from ih [OF v(1) w(1) v(2) w1(2)] w(3) have "py_eq v1 v1'" by simp
      with w1(1) w(2) show "case e of (k, v) \<Rightarrow> \<exists>(k', v') \<in> set db'. py_eq k k' \<and> py_eq v v'"
        unfolding e1 by fast
    next
      fix e assume h: "\<forall>(k, v) \<in> set da'. \<exists>(k', v') \<in> set db'. py_eq k k' \<and> py_eq v v'"
        and e: "e \<in> set da"
      obtain k v where e1: "e = (k, v)" by (cases e)
      with e fa obtain v1 where v: "(k, v1) \<in> set da'" "reorder_eq v v1" by blast
      with h obtain k' v1' where w: "(k', v1') \<in> set db'" "py_eq k k'" "py_eq v1 v1'" by fast
      with cb(3) obtain v' where w1: "(k', v') \<in> set db" "reorder_eq v' v1'" by blast
      from e e1 have "(k, v) \<in> set da" by simp
      from ih [OF this w1(1) v(2) w1(2)] w(3) have "py_eq v v'" by simp
      with w1(1) w(2) show "case e of (k, v) \<Rightarrow> \<exists>(k', v') \<in> set db. py_eq k k' \<and> py_eq v v'"
        unfolding e1 by fast
    qed
    with a' b lb show ?thesis
      by (simp add: list_all_iff list_ex_iff)
  qed
qed

lemma py_insort_rel:
  assumes "list_all2 R ys ys'" and "R x x'"
    and "\<And>y y'. y \<in> set ys \<Longrightarrow> R y y' \<Longrightarrow> py_lt y x = py_lt y' x'"
  shows "rel_sum (=) (list_all2 R) (py_insort x ys) (py_insort x' ys')"
  using assms(1,3)
proof (induction ys ys' rule: list_all2_induct)
  case Nil
  then show ?case by (simp add: assms(2))
next
  case (Cons y ys y' ys')
  have lt: "py_lt y x = py_lt y' x'"
    by (rule Cons.prems) (simp_all add: Cons.hyps)
  have IH: "rel_sum (=) (list_all2 R) (py_insort x ys) (py_insort x' ys')"
    by (rule Cons.IH) (rule Cons.prems, simp_all)
  show ?case
  proof (cases "py_lt y' x'")
    case (Inl e)
    then show ?thesis by (simp add: lt)
  next
    case (Inr c)
    show ?thesis
    proof (cases c)
      case True
      with IH Cons.hyps(1) show ?thesis
        by (cases "py_insort x ys"; cases "py_insort x' ys'") (simp_all add: lt Inr)
    next
      case False
      with Cons.hyps assms(2) show ?thesis
        by (simp add: lt Inr)
    qed
  qed
qed

lemma py_sorted_rel:
  assumes "list_all2 R xs xs'"
    and "\<And>x x' y y'. x \<in> set xs \<Longrightarrow> y \<in> set xs \<Longrightarrow> R x x' \<Longrightarrow> R y y' \<Longrightarrow>
           py_lt y x = py_lt y' x'"
  shows "rel_sum (=) (list_all2 R) (py_sorted xs) (py_sorted xs')"
  using assms
proof (induction xs xs' rule: list_all2_induct)
  case Nil
  then show ?case by simp
next
  case (Cons x xs x' xs')
  have IH: "rel_sum (=) (list_all2 R) (py_sorted xs) (py_sorted xs')"
    by (rule Cons.IH) (rule Cons.prems, simp_all)
  show ?case
  proof (cases "py_sorted xs")
    case (Inl e)
    with IH show ?thesis by (cases "py_sorted xs'") simp_all
  next
    case (Inr r)
    with IH obtain r' where r': "py_sorted xs' = Inr r'" "list_all2 R r r'"
      by (cases "py_sorted xs'") simp_all
    have "set r = set xs" by (rule set_py_sorted [OF Inr])
    then have "rel_sum (=) (list_all2 R) (py_insort x r) (py_insort x' r')"
      by (intro py_insort_rel r'(2) Cons.hyps(1)) (rule Cons.prems, simp_all add: Cons.hyps)
    then show ?thesis by (simp add: Inr r')
  qed
qed

lemma map_err_rel:
  "list_all2 (\<lambda>x x'. f x = f x') xs xs' \<Longrightarrow> map_err f xs = map_err f xs'"
  by (induction xs xs' rule: list_all2_induct) simp_all

lemma map_err_isl: "isl (map_err f xs) \<longleftrightarrow> (\<exists>x \<in> set xs. isl (f x))"
proof (induction xs)
  case Nil
  then show ?case by simp
next
  case (Cons x xs)
  then show ?case
    by (cases "f x"; cases "map_err f xs") auto
qed

lemma map_err_Inr: "\<not> isl (map_err f xs) \<Longrightarrow> map_err f xs = Inr (map (projr \<circ> f) xs)"
proof (induction xs)
  case Nil
  then show ?case by simp
next
  case (Cons x xs)
  then show ?case
    by (cases "f x"; cases "map_err f xs") auto
qed

subsection \<open>The file name under a reordering of the keys\<close>

lemma map_err_map: "map_err f (map g xs) = map_err (f \<circ> g) xs"
  by (induction xs) simp_all

lemma freeze_dict_items:
  "freeze (PDict d) =
     bind_err (map_err item_of (map key_frozen d))
       (\<lambda>items. bind_err (py_sorted items) (\<lambda>s. Inr (PTuple s)))"
proof -
  have "(\<lambda>(key, val). bind_err (freeze val) (\<lambda>fv. Inr (PTuple [key, fv]))) = item_of \<circ> key_frozen"
    by (auto simp: item_of_def key_frozen_def fun_eq_iff)
  then show ?thesis by (simp add: map_err_map)
qed

lemma key_frozen_perm:
  assumes da: "distinct (map fst da)" and db: "distinct (map fst db)"
    and fw: "\<forall>k v. (k, v) \<in> set da \<longrightarrow> (\<exists>v'. (k, v') \<in> set db \<and> freeze v = freeze v')"
    and bw: "\<forall>k v'. (k, v') \<in> set db \<longrightarrow> (\<exists>v. (k, v) \<in> set da \<and> freeze v = freeze v')"
  shows "mset (map key_frozen db) = mset (map key_frozen da)"
proof -
  have img: "set (map key_frozen db) = set (map key_frozen da)"
  proof (intro set_eqI iffI)
    fix r assume "r \<in> set (map key_frozen db)"
    then obtain k v' where kv: "(k, v') \<in> set db" "r = key_frozen (k, v')" by auto
    with bw obtain v where "(k, v) \<in> set da" "freeze v = freeze v'" by blast
    with kv show "r \<in> set (map key_frozen da)"
      by (force simp: key_frozen_def)
  next
    fix r assume "r \<in> set (map key_frozen da)"
    then obtain k v where kv: "(k, v) \<in> set da" "r = key_frozen (k, v)" by auto
    with fw obtain v' where "(k, v') \<in> set db" "freeze v = freeze v'" by blast
    with kv show "r \<in> set (map key_frozen db)"
      by (force simp: key_frozen_def)
  qed
  have dist: "distinct (map key_frozen d)" if "distinct (map fst d)" for d
  proof -
    have "fst \<circ> key_frozen = fst"
      by (auto simp: key_frozen_def fun_eq_iff)
    with that have "distinct (map fst (map key_frozen d))" by simp
    then show ?thesis
      using distinct_map [of fst "map key_frozen d"] by blast
  qed
  from img show ?thesis
    by (simp only: set_eq_iff_mset_eq_distinct [OF dist [OF db] dist [OF da]])
qed

lemma map_err_perm:
  assumes "mset L' = mset L"
  shows "isl (map_err f L') \<longleftrightarrow> isl (map_err f L)"
    and "mset (map (projr \<circ> f) L') = mset (map (projr \<circ> f) L)"
proof -
  from assms have "set L' = set L" by (metis set_mset_mset)
  then show "isl (map_err f L') \<longleftrightarrow> isl (map_err f L)"
    by (simp add: map_err_isl)
  from assms show "mset (map (projr \<circ> f) L') = mset (map (projr \<circ> f) L)"
    by (metis mset_map)
qed

lemma item_of_error: "(k, r) \<in> set (map key_frozen d) \<Longrightarrow> item_of (k, r) = Inl e \<Longrightarrow> e = TypeError"
  by (cases r) (auto simp: item_of_def key_frozen_def dest: freeze_error [OF sym])

lemma items_error:
  assumes "map_err item_of (map key_frozen d) = Inl e"
  shows "e = TypeError"
proof -
  from map_err_error [OF assms] obtain x where "x \<in> set (map key_frozen d)" "item_of x = Inl e"
    by blast
  then show ?thesis
    using item_of_error [of "fst x" "snd x" d e] by simp
qed

lemma items_are_items:
  assumes "\<And>k v. (k, v) \<in> set d \<Longrightarrow> scalar k"
    and "\<not> isl (map_err item_of (map key_frozen d))"
  shows "list_all is_item (map (projr \<circ> item_of) (map key_frozen d))"
    and "map item_key (map (projr \<circ> item_of) (map key_frozen d)) = map (\<lambda>(k, v). skey k) d"
proof -
  have ok: "\<not> isl (freeze v)" if "(k, v) \<in> set d" for k v
  proof
    assume "isl (freeze v)"
    then have "isl (item_of (key_frozen (k, v)))"
      by (cases "freeze v") (simp_all add: item_of_def key_frozen_def)
    with that assms(2) show False
      unfolding map_err_isl by force
  qed
  have it: "(projr \<circ> item_of) (key_frozen (k, v)) = PTuple [k, projr (freeze v)]"
    if "(k, v) \<in> set d" for k v
    using ok [OF that] by (cases "freeze v") (simp_all add: item_of_def key_frozen_def)
  show "list_all is_item (map (projr \<circ> item_of) (map key_frozen d))"
    unfolding list_all_iff
  proof
    fix x assume "x \<in> set (map (projr \<circ> item_of) (map key_frozen d))"
    then obtain k v where kv: "(k, v) \<in> set d" "x = (projr \<circ> item_of) (key_frozen (k, v))"
      by auto
    with it [OF kv(1)] assms(1) [OF kv(1)] show "is_item x" by simp
  qed
  have "map item_key (map (projr \<circ> item_of) (map key_frozen d)) =
        map (\<lambda>p. item_key ((projr \<circ> item_of) (key_frozen p))) d"
    by (simp add: comp_def)
  also have "\<dots> = map (\<lambda>(k, v). skey k) d"
  proof (rule map_cong [OF refl])
    fix p assume p: "p \<in> set d"
    obtain k v where pk: "p = (k, v)" by (cases p)
    with it [of k v] p show "item_key ((projr \<circ> item_of) (key_frozen p)) = (case p of (k, v) \<Rightarrow> skey k)"
      by simp
  qed
  finally show "map item_key (map (projr \<circ> item_of) (map key_frozen d)) = map (\<lambda>(k, v). skey k) d" .
qed

lemma freeze_dict_perm:
  assumes ya: "yaml_value (PDict da)" and yb: "yaml_value (PDict db)"
    and fw: "\<forall>k v. (k, v) \<in> set da \<longrightarrow> (\<exists>v'. (k, v') \<in> set db \<and> freeze v = freeze v')"
    and bw: "\<forall>k v'. (k, v') \<in> set db \<longrightarrow> (\<exists>v. (k, v) \<in> set da \<and> freeze v = freeze v')"
  shows "freeze (PDict da) = freeze (PDict db)"
proof -
  note ka = yaml_dict_keys [OF ya] and kb = yaml_dict_keys [OF yb]
  let ?La = "map key_frozen da" and ?Lb = "map key_frozen db"
  have perm: "mset ?Lb = mset ?La"
    by (rule key_frozen_perm [OF ka(1) kb(1) fw bw])
  note mp = map_err_perm [OF perm, of item_of]
  show ?thesis
  proof (cases "isl (map_err item_of ?La)")
    case True
    with mp(1) have "isl (map_err item_of ?Lb)" by simp
    with True show ?thesis
      by (cases "map_err item_of ?La"; cases "map_err item_of ?Lb")
         (auto simp del: freeze.simps simp add: freeze_dict_items dest!: items_error)
  next
    case False
    with mp(1) have Fb: "\<not> isl (map_err item_of ?Lb)" by simp
    let ?Ia = "map (projr \<circ> item_of) ?La" and ?Ib = "map (projr \<circ> item_of) ?Lb"
    have scal: "scalar k" if "(k, v) \<in> set da" for k v using ka(3) [OF that] by simp
    have ia: "list_all is_item ?Ia"
      by (rule items_are_items(1) [OF scal False])
    have keys: "map item_key ?Ia = map (\<lambda>(k, v). skey k) da"
      by (rule items_are_items(2) [OF scal False])
    from ya have "distinct (map (\<lambda>(k, v). skey k) da)" by simp
    then have da: "distinct (map item_key ?Ia)" by (simp only: keys)
    have "py_sorted ?Ib = py_sorted ?Ia"
      by (rule items_sorted_perm [OF ia da mp(2)])
    then show ?thesis
      by (simp del: freeze.simps add: freeze_dict_items map_err_Inr [OF False] map_err_Inr [OF Fb])
  qed
qed

lemma freeze_list_rel:
  assumes "list_all2 reorder_eq xs ys" and "list_all yaml_value xs"
    and IH: "\<And>x y. x \<in> set xs \<Longrightarrow> reorder_eq x y \<Longrightarrow> freeze x = freeze y"
  shows "bind_err (py_sorted xs) (\<lambda>s. bind_err (map_err freeze s) (\<lambda>fs. Inr (PTuple fs)))
       = bind_err (py_sorted ys) (\<lambda>s. bind_err (map_err freeze s) (\<lambda>fs. Inr (PTuple fs)))"
proof -
  have rel: "rel_sum (=) (list_all2 reorder_eq) (py_sorted xs) (py_sorted ys)"
  proof (rule py_sorted_rel [OF assms(1)])
    fix x x' y y' assume "x \<in> set xs" "y \<in> set xs" "reorder_eq x x'" "reorder_eq y y'"
    with assms(2) show "py_lt y x = py_lt y' x'"
      using py_cmp_reorder [of y x y' x'] by (simp add: list_all_iff)
  qed
  show ?thesis
  proof (cases "py_sorted xs")
    case (Inl e)
    with rel show ?thesis by (cases "py_sorted ys") simp_all
  next
    case (Inr s)
    with rel obtain s' where s': "py_sorted ys = Inr s'" "list_all2 reorder_eq s s'"
      by (cases "py_sorted ys") simp_all
    have mem: "set s = set xs" by (rule set_py_sorted [OF Inr])
    have "list_all2 (\<lambda>x x'. freeze x = freeze x') s s'"
      by (rule list.rel_mono_strong [OF s'(2)]) (use IH mem in auto)
    then have "map_err freeze s = map_err freeze s'" by (rule map_err_rel)
    then show ?thesis by (simp add: Inr s')
  qed
qed

lemma freeze_reorder: "yaml_value a \<Longrightarrow> reorder_eq a b \<Longrightarrow> freeze a = freeze b"
proof (induction a arbitrary: b)
  case (PList xs)
  from PList.prems(2) obtain ys where b: "b = PList ys" "list_all2 reorder_eq xs ys"
    by (rule reorder_eq_listD)
  have "freeze x = freeze y" if "x \<in> set xs" "reorder_eq x y" for x y
    using PList.IH [OF that(1) _ that(2)] PList.prems(1) that(1) by (simp add: list_all_iff)
  with b PList.prems(1) show ?case
    using freeze_list_rel [of xs ys] by simp
next
  case (PDict da)
  from reorder_eq_dictD [OF PDict.prems(2)] obtain db where b: "b = PDict db" "length da = length db"
    and fw': "\<forall>k v. (k, v) \<in> set da \<longrightarrow> (\<exists>v'. (k, v') \<in> set db \<and> reorder_eq v v')"
    by blast
  note ya = yaml_dict_keys [OF PDict.prems(1)]
  note cv = dict_partner_converse [of da db reorder_eq, OF ya(1) b(2) fw']
  have yb: "yaml_value (PDict db)"
    using reorder_eq_yaml [OF PDict.prems] b by simp
  have fr: "freeze v = freeze v'" if "(k, v) \<in> set da" "reorder_eq v v'" for k v v'
    using PDict.IH [of "(k, v)" v v'] that ya(3) [OF that(1)] by simp
  have fw: "\<forall>k v. (k, v) \<in> set da \<longrightarrow> (\<exists>v'. (k, v') \<in> set db \<and> freeze v = freeze v')"
    using fw' fr by blast
  have bw: "\<forall>k v'. (k, v') \<in> set db \<longrightarrow> (\<exists>v. (k, v) \<in> set da \<and> freeze v = freeze v')"
    using cv(3) fr by blast
  show ?case
    unfolding b by (rule freeze_dict_perm [OF PDict.prems(1) yb fw bw])
qed auto

text \<open>
  Claim C1. When a configuration mapping holds YAML values and a second mapping is equal
  to it up to the order of the keys of its dictionaries, nested ones included, the
  naming step gives both the same result, whatever the hash function is: the same file
  name, or the same error.
\<close>

theorem filename_stable_under_key_reordering:
  assumes "yaml_value model_config_data" and "reorder_eq model_config_data reordered"
  shows "config_filename h reordered = config_filename h model_config_data"
  using freeze_reorder [OF assms] by (simp add: config_filename_def hash_dict_def)

theorem filename_stable_witness:
  "yaml_value example_config
   \<and> reorder_eq example_config example_config_reordered
   \<and> example_config_reordered \<noteq> example_config
   \<and> config_filename example_hash example_config = Inr ''model_config_dspy_48697.yaml''
   \<and> config_filename example_hash example_config_reordered = Inr ''model_config_dspy_48697.yaml''"
proof -
  have y: "yaml_value example_config" by (simp add: example_config_def)
  have r: "reorder_eq example_config example_config_reordered"
    by (simp add: example_config_def example_config_reordered_def)
  have n: "config_filename example_hash example_config = Inr ''model_config_dspy_48697.yaml''"
    by (simp add: example_config_def config_filename_def hash_dict_def py_hash_def py_str_int_def)
  show ?thesis
    using y r n filename_stable_under_key_reordering [OF y r, of example_hash]
    by (simp add: example_config_def example_config_reordered_def)
qed

subsection \<open>The naming step and its description\<close>

lemma set_key_insort: "spec_key_insort x ys = Inr r \<Longrightarrow> set r = insert x (set ys)"
proof (induction ys arbitrary: r)
  case Nil
  then show ?case by auto
next
  case (Cons y ys)
  then show ?case
    by (auto simp: bind_err_Inr_iff split: if_splits)
qed

lemma set_sort_by_key: "spec_sort_by_key xs = Inr r \<Longrightarrow> set r = set xs"
proof (induction xs arbitrary: r)
  case Nil
  then show ?case by simp
next
  case (Cons x xs)
  then show ?case
    by (auto simp: bind_err_Inr_iff dest: set_key_insort)
qed

lemma py_insort_pairs:
  assumes "\<And>y. y \<in> set ys \<Longrightarrow> \<not> py_eq (fst y) (fst x)"
  shows "py_insort (pair_tuple x) (map pair_tuple ys) =
         bind_err (spec_key_insort x ys) (\<lambda>r. Inr (map pair_tuple r))"
  using assms
proof (induction ys)
  case Nil
  then show ?case by simp
next
  case (Cons y ys)
  then have ne: "\<not> py_eq (fst y) (fst x)" and IH: "py_insort (pair_tuple x) (map pair_tuple ys) =
         bind_err (spec_key_insort x ys) (\<lambda>r. Inr (map pair_tuple r))" by simp_all
  have lt: "py_lt (pair_tuple y) (pair_tuple x) = py_lt (fst y) (fst x)"
    using ne by (simp add: pair_tuple_def)
  show ?case
    by (cases "py_lt (fst y) (fst x)"; cases "spec_key_insort x ys") (simp_all add: lt IH)
qed

lemma distinct_keys_mem:
  "distinct_keys (k # ks) \<Longrightarrow> k' \<in> set ks \<Longrightarrow> \<not> py_eq k' k"
  by (auto simp: list_all_iff)

lemma py_sorted_pairs:
  assumes "distinct_keys (map fst ps)"
  shows "py_sorted (map pair_tuple ps) = bind_err (spec_sort_by_key ps) (\<lambda>r. Inr (map pair_tuple r))"
  using assms
proof (induction ps)
  case Nil
  then show ?case by simp
next
  case (Cons p ps)
  then have IH: "py_sorted (map pair_tuple ps) =
      bind_err (spec_sort_by_key ps) (\<lambda>r. Inr (map pair_tuple r))" by simp
  show ?case
  proof (cases "spec_sort_by_key ps")
    case (Inl e)
    then show ?thesis by (simp add: IH)
  next
    case (Inr r)
    have "\<not> py_eq (fst y) (fst p)" if "y \<in> set r" for y
    proof -
      from that set_sort_by_key [OF Inr] have "fst y \<in> set (map fst ps)" by auto
      with Cons.prems show ?thesis
        using distinct_keys_mem [of "fst p" "map fst ps" "fst y"] by simp
    qed
    then show ?thesis
      by (simp add: IH Inr py_insort_pairs)
  qed
qed

lemma map_err_pairs:
  "map_err (\<lambda>(k, v). bind_err (g v) (\<lambda>c. Inr (PTuple [k, c]))) d =
   bind_err (map_err (\<lambda>(k, v). bind_err (g v) (\<lambda>c. Inr (k, c))) d)
     (\<lambda>ps. Inr (map pair_tuple ps))"
proof (induction d)
  case Nil
  then show ?case by simp
next
  case (Cons p d)
  obtain k v where p: "p = (k, v)" by (cases p)
  show ?case
    by (cases "g v"; cases "map_err (\<lambda>(k, v). bind_err (g v) (\<lambda>c. Inr (k, c))) d")
       (simp_all add: p Cons pair_tuple_def)
qed

lemma map_err_pairs_keys:
  "map_err (\<lambda>(k, v). bind_err (g v) (\<lambda>c. Inr (k, c))) d = Inr ps \<Longrightarrow> map fst ps = map fst d"
proof (induction d arbitrary: ps)
  case Nil
  then show ?case by simp
next
  case (Cons p d)
  then show ?case
    by (cases p) (auto simp: bind_err_Inr_iff)
qed

lemma freeze_spec_canonical: "well_formed v \<Longrightarrow> freeze v = spec_canonical v"
proof (induction v rule: freeze.induct)
  case (1 d)
  let ?F = "\<lambda>g. map_err (\<lambda>(k, v). bind_err (g v) (\<lambda>c. Inr (PTuple [k, c]))) d"
  let ?G = "\<lambda>g. map_err (\<lambda>(k, v). bind_err (g v) (\<lambda>c. Inr (k, c))) d"
  have vals: "freeze v = spec_canonical v" if "(k, v) \<in> set d" for k v
    using 1 that by (auto simp: list_all_iff)
  have "?F freeze = ?F spec_canonical"
    by (rule map_err_cong) (auto simp: vals)
  then have F: "?F freeze = bind_err (?G spec_canonical) (\<lambda>ps. Inr (map pair_tuple ps))"
    by (simp add: map_err_pairs)
  show ?case
  proof (cases "?G spec_canonical")
    case (Inl e)
    then show ?thesis by (simp add: F)
  next
    case (Inr ps)
    from map_err_pairs_keys [OF Inr] 1(2) have "distinct_keys (map fst ps)" by simp
    then show ?thesis
      by (cases "spec_sort_by_key ps") (simp_all add: F Inr py_sorted_pairs)
  qed
next
  case (2 d)
  show ?case
  proof (cases "py_sorted d")
    case (Inl e)
    then show ?thesis by simp
  next
    case (Inr s)
    have "freeze x = spec_canonical x" if "x \<in> set s" for x
      using 2 Inr that set_py_sorted [OF Inr] by (auto simp: list_all_iff)
    then have "map_err freeze s = map_err spec_canonical s"
      by (intro map_err_cong) simp_all
    then show ?thesis by (simp add: Inr)
  qed
next
  case (3 d)
  show ?case
  proof (cases "py_sorted d")
    case (Inl e)
    then show ?thesis by simp
  next
    case (Inr s)
    have "freeze x = spec_canonical x" if "x \<in> set s" for x
      using 3 Inr that set_py_sorted [OF Inr] by (auto simp: list_all_iff)
    then have "map_err freeze s = map_err spec_canonical s"
      by (intro map_err_cong) simp_all
    then show ?thesis by (simp add: Inr)
  qed
qed simp_all

lemma py_str_int_abs: "py_str_int (if x < 0 then - x else x) = str_nat (nat \<bar>x\<bar>)"
  by (simp add: py_str_int_def abs_if)

text \<open>
  Claim C2. On a mapping in which no dictionary repeats a key, the naming step of the
  code gives what the steps of the specification give: the canonical form with the
  keys of every dictionary and the elements of every list and set sorted, its hash, the
  absolute value \<open>N\<close> of the hash, and the name \<^verbatim>\<open>model_config_dspy_{N}.yaml\<close> with the decimal
  digits of that natural number.
\<close>

theorem naming_step_follows_spec:
  assumes "well_formed model_config_data"
  shows "config_filename h model_config_data = spec_config_filename h model_config_data"
  by (simp add: config_filename_def spec_config_filename_def hash_dict_def
        freeze_spec_canonical [OF assms] py_str_int_abs bind_err_def split: sum.split)

theorem naming_step_witness:
  "well_formed example_config
   \<and> config_filename example_hash example_config = spec_config_filename example_hash example_config
   \<and> spec_config_filename example_hash example_config = Inr ''model_config_dspy_48697.yaml''"
proof -
  have w: "well_formed example_config" by (simp add: example_config_def)
  have n: "spec_config_filename example_hash example_config = Inr ''model_config_dspy_48697.yaml''"
    by (simp add: example_config_def spec_config_filename_def py_hash_def pair_tuple_def)
  show ?thesis
    using w n naming_step_follows_spec [OF w, of example_hash] by simp
qed

subsection \<open>Lists in a configuration\<close>











end
